theory Spec2Isabelle
  imports Complex_Main
begin

section \<open>The JavaScript values the page script computes with\<close>

subsection \<open>Strings\<close>

text \<open>
  A JavaScript string is a sequence of UTF-16 code units; \<open>length\<close>, \<open>charAt\<close>,
  \<open>===\<close>, \<open>includes\<close> and \<open>replace\<close> all work on code units. A code unit is
  written as its number, from 0 to 65535. The script's literals are ASCII except for the
  sentinel \<open>U+221E\<close> of the counters and the alert message.
\<close>

type_synonym jsstring = "int list"

definition str :: "string \<Rightarrow> jsstring" where
  "str s = map of_char s"

definition INFINITY_SIGN :: jsstring where
  "INFINITY_SIGN = [8734]"

text \<open>\<open>s.replace('+', '')\<close> with a string pattern removes the first occurrence only.\<close>

fun replace_plus :: "jsstring \<Rightarrow> jsstring" where
  "replace_plus [] = []"
| "replace_plus (c # cs) = (if c = 43 then cs else c # replace_plus cs)"

definition includes_plus :: "jsstring \<Rightarrow> bool" where
  "includes_plus s \<longleftrightarrow> 43 \<in> set s"

subsection \<open>Numbers\<close>

text \<open>
  A Number is an IEEE 754 binary64 value. A finite one is \<open>Fin m e\<close>, the value
  \<open>m * 2^e\<close> with the significand \<open>\<bar>m\<bar> < 2^53\<close> and the exponent \<open>-1074 \<le> e \<le> 971\<close>, where
  \<open>2^52 \<le> \<bar>m\<bar>\<close> unless \<open>e = -1074\<close> (zero and the subnormals), so that every value has one
  representation. The sign of zero is not kept: the script divides by the literal 50 only
  and both zeros print as \<open>0\<close>. Every operation rounds its exact result to the nearest
  double, ties to the even significand.
\<close>

datatype jsnum = NaN | PosInf | NegInf | Fin int int

text \<open>The number of bits of a positive integer, counted sixteen at a time where possible.\<close>

function bit_length :: "int \<Rightarrow> nat" where
  "bit_length n =
     (if n \<le> 0 then 0
      else if 65536 \<le> n then 16 + bit_length (n div 65536)
      else Suc (bit_length (n div 2)))"
  by pat_completeness auto
termination
  by (relation "measure nat") auto

text \<open>\<open>n / 2^d\<close> for \<open>n \<ge> 0\<close>, rounded to the nearest integer, ties to even.\<close>

definition shift_round :: "int \<Rightarrow> nat \<Rightarrow> int" where
  "shift_round n d =
     (let m = n div 2 ^ d; r = n mod 2 ^ d
      in if 2 * r < 2 ^ d then m else if 2 ^ d < 2 * r then m + 1
         else if even m then m else m + 1)"

text \<open>
  The double nearest to \<open>n * 2^e\<close> for \<open>n \<ge> 0\<close>, negated when \<open>neg\<close>: 53 significant bits,
  no exponent below \<open>-1074\<close>, infinity beyond the largest double.
\<close>

definition round_dyadic :: "bool \<Rightarrow> int \<Rightarrow> int \<Rightarrow> jsnum" where
  "round_dyadic neg n e =
     (if n = 0 then Fin 0 (- 1074)
      else let q = max (e + int (bit_length n) - 53) (- 1074);
               m = (if q \<le> e then n * 2 ^ nat (e - q) else shift_round n (nat (q - e)));
               m1 = (if m = 2 ^ 53 then 2 ^ 52 else m);
               q1 = (if m = 2 ^ 53 then q + 1 else q)
           in if 971 < q1 then (if neg then NegInf else PosInf)
              else Fin (if neg then - m1 else m1) q1)"

text \<open>
  The double nearest to \<open>p / q\<close> for \<open>p \<ge> 0\<close> and \<open>q > 0\<close>: the quotient is computed to at
  least 56 bits and a last bit records whether anything was left over.
\<close>

definition round_ratio :: "bool \<Rightarrow> int \<Rightarrow> int \<Rightarrow> jsnum" where
  "round_ratio neg p q =
     (if p = 0 then Fin 0 (- 1074)
      else let k = nat (max 0 (56 + int (bit_length q) - int (bit_length p)));
               n = p * 2 ^ k div q;
               sticky = (if p * 2 ^ k mod q = 0 then 0 else 1)
           in round_dyadic neg (2 * n + sticky) (- int k - 1))"

text \<open>The Number of an integer literal, and of the literal \<open>0.5\<close>.\<close>

definition num :: "int \<Rightarrow> jsnum" where
  "num n = round_dyadic (n < 0) \<bar>n\<bar> 0"

definition one_half :: jsnum where
  "one_half = round_ratio False 1 2"

fun jsadd :: "jsnum \<Rightarrow> jsnum \<Rightarrow> jsnum" where
  "jsadd NaN y = NaN"
| "jsadd x NaN = NaN"
| "jsadd PosInf NegInf = NaN"
| "jsadd NegInf PosInf = NaN"
| "jsadd PosInf y = PosInf"
| "jsadd NegInf y = NegInf"
| "jsadd x PosInf = PosInf"
| "jsadd x NegInf = NegInf"
| "jsadd (Fin m1 e1) (Fin m2 e2) =
     (let e = min e1 e2; n = m1 * 2 ^ nat (e1 - e) + m2 * 2 ^ nat (e2 - e)
      in round_dyadic (n < 0) \<bar>n\<bar> e)"

fun is_negative :: "jsnum \<Rightarrow> bool" where
  "is_negative NegInf = True"
| "is_negative (Fin m e) = (m < 0)"
| "is_negative x = False"

fun is_zero :: "jsnum \<Rightarrow> bool" where
  "is_zero (Fin m e) = (m = 0)"
| "is_zero x = False"

fun jsmul :: "jsnum \<Rightarrow> jsnum \<Rightarrow> jsnum" where
  "jsmul NaN y = NaN"
| "jsmul x NaN = NaN"
| "jsmul (Fin m1 e1) (Fin m2 e2) = round_dyadic (m1 * m2 < 0) \<bar>m1 * m2\<bar> (e1 + e2)"
| "jsmul x y =
     (if is_zero x \<or> is_zero y then NaN
      else if is_negative x = is_negative y then PosInf else NegInf)"

fun jsdiv :: "jsnum \<Rightarrow> jsnum \<Rightarrow> jsnum" where
  "jsdiv NaN y = NaN"
| "jsdiv x NaN = NaN"
| "jsdiv (Fin m1 e1) (Fin m2 e2) =
     (if m2 = 0 then (if m1 = 0 then NaN else if m1 < 0 then NegInf else PosInf)
      else let e = min e1 e2
           in round_ratio ((m1 < 0) \<noteq> (m2 < 0))
                (\<bar>m1\<bar> * 2 ^ nat (e1 - e)) (\<bar>m2\<bar> * 2 ^ nat (e2 - e)))"
| "jsdiv (Fin m1 e1) y = Fin 0 (- 1074)"
| "jsdiv x (Fin m2 e2) = (if is_negative x = (m2 < 0) then PosInf else NegInf)"
| "jsdiv x y = NaN"

text \<open>\<open>x >= y\<close> and \<open>x > y\<close>: false as soon as one side is NaN.\<close>

fun jsge :: "jsnum \<Rightarrow> jsnum \<Rightarrow> bool" where
  "jsge NaN y = False"
| "jsge x NaN = False"
| "jsge PosInf y = True"
| "jsge x NegInf = True"
| "jsge NegInf y = False"
| "jsge x PosInf = False"
| "jsge (Fin m1 e1) (Fin m2 e2) =
     (let e = min e1 e2 in m2 * 2 ^ nat (e2 - e) \<le> m1 * 2 ^ nat (e1 - e))"

fun jsgt :: "jsnum \<Rightarrow> jsnum \<Rightarrow> bool" where
  "jsgt NaN y = False"
| "jsgt x NaN = False"
| "jsgt PosInf PosInf = False"
| "jsgt PosInf y = True"
| "jsgt NegInf y = False"
| "jsgt x NegInf = True"
| "jsgt x PosInf = False"
| "jsgt (Fin m1 e1) (Fin m2 e2) =
     (let e = min e1 e2 in m2 * 2 ^ nat (e2 - e) < m1 * 2 ^ nat (e1 - e))"

fun Math_floor :: "jsnum \<Rightarrow> jsnum" where
  "Math_floor (Fin m e) = (if 0 \<le> e then Fin m e else num (m div 2 ^ nat (- e)))"
| "Math_floor x = x"

subsection \<open>Number to string\<close>

text \<open>
  \<open>Number::toString\<close> (radix 10) prints the shortest decimal digit string \<open>s\<close>, with the
  decimal exponent \<open>n\<close>, whose value \<open>s * 10^(n - k)\<close> rounds back to the number (\<open>k\<close> the
  number of digits; the closest such value, an even \<open>s\<close> on a tie), in positional
  notation for \<open>-6 < n \<le> 21\<close> and in exponent notation otherwise. The positive number is
  handled as the fraction \<open>p / q\<close> of two positive integers.
\<close>

function decimal :: "int \<Rightarrow> jsstring" where
  "decimal n = (if n < 10 then [48 + n] else decimal (n div 10) @ [48 + n mod 10])"
  by pat_completeness auto
termination
  by (relation "measure nat") auto

text \<open>The integer \<open>n\<close> with \<open>10^(n-1) \<le> p / q < 10^n\<close>.\<close>

definition decimal_exponent :: "int \<Rightarrow> int \<Rightarrow> int" where
  "decimal_exponent p q =
     (if q \<le> p then int (length (decimal (p div q)))
      else let d = length (decimal (q div p))
           in if q \<le> p * 10 ^ (d - 1) then 2 - int d else 1 - int d)"

text \<open>
  The digits \<open>s\<close> stand for \<open>s * 10^j\<close>, with \<open>j = n0 - k\<close> of either sign: the fraction
  \<open>scaled_p s j / scaled_q j\<close>.
\<close>

definition scaled_p :: "int \<Rightarrow> int \<Rightarrow> int" where
  "scaled_p s j = (if 0 \<le> j then s * 10 ^ nat j else s)"

definition scaled_q :: "int \<Rightarrow> int" where
  "scaled_q j = (if 0 \<le> j then 1 else 10 ^ nat (- j))"

fun shortest_digits :: "nat \<Rightarrow> nat \<Rightarrow> jsnum \<Rightarrow> int \<Rightarrow> int \<Rightarrow> int \<Rightarrow> int \<times> int" where
  "shortest_digits 0 k x p q n0 =
     (p * scaled_q (n0 - int k) div (q * scaled_p 1 (n0 - int k)), n0)"
| "shortest_digits (Suc fuel) k x p q n0 =
     (let j = n0 - int k;
          lo = p * scaled_q j div (q * scaled_p 1 j);
          hi = lo + 1;
          ok_lo = (round_ratio False (scaled_p lo j) (scaled_q j) = x);
          ok_hi = (round_ratio False (scaled_p hi j) (scaled_q j) = x);
          up = (if hi = 10 ^ k then (10 ^ (k - 1), n0 + 1) else (hi, n0));
          below = p * scaled_q j - scaled_p lo j * q;
          above = scaled_p hi j * q - p * scaled_q j
      in if ok_lo \<and> ok_hi then
           (if below < above then (lo, n0) else if above < below then up
            else if even lo then (lo, n0) else up)
         else if ok_lo then (lo, n0)
         else if ok_hi then up
         else shortest_digits fuel (Suc k) x p q n0)"

definition positive_to_string :: "int \<Rightarrow> int \<Rightarrow> jsstring" where
  "positive_to_string m e =
     (let p = m * 2 ^ nat e; q = 2 ^ nat (- e);
          (s, n) = shortest_digits 17 1 (Fin m e) p q (decimal_exponent p q);
          ds = decimal s;
          k = int (length ds)
      in if k \<le> n \<and> n \<le> 21 then ds @ replicate (nat (n - k)) 48
         else if 0 < n \<and> n \<le> 21 then take (nat n) ds @ [46] @ drop (nat n) ds
         else if - 6 < n \<and> n \<le> 0 then [48, 46] @ replicate (nat (- n)) 48 @ ds
         else (if k = 1 then ds else take 1 ds @ [46] @ drop 1 ds)
              @ [101, if 0 \<le> n - 1 then 43 else 45] @ decimal \<bar>n - 1\<bar>)"

fun ToString :: "jsnum \<Rightarrow> jsstring" where
  "ToString NaN = str ''NaN''"
| "ToString PosInf = str ''Infinity''"
| "ToString NegInf = str ''-Infinity''"
| "ToString (Fin m e) =
     (if m = 0 then str ''0''
      else if m < 0 then 45 # positive_to_string (- m) e
      else positive_to_string m e)"

subsection \<open>\<open>parseInt\<close>\<close>

text \<open>
  \<open>parseInt(string)\<close> with no radix: leading white space is skipped, a sign is read, a
  \<open>0x\<close>/\<open>0X\<close> prefix selects radix 16, the longest run of digits is the integer, and no
  digit at all is \<open>NaN\<close>. The integer is rounded to a double.
\<close>

definition is_white_space :: "int \<Rightarrow> bool" where
  "is_white_space c \<longleftrightarrow>
     c \<in> set [9, 10, 11, 12, 13, 32, 160, 5760, 8232, 8233, 8239, 8287, 12288, 65279]
     \<or> (8192 \<le> c \<and> c \<le> 8202)"

definition digit_value :: "int \<Rightarrow> int" where
  "digit_value c =
     (if 48 \<le> c \<and> c \<le> 57 then c - 48
      else if 97 \<le> c \<and> c \<le> 122 then c - 87
      else if 65 \<le> c \<and> c \<le> 90 then c - 55
      else 36)"

definition parseInt :: "jsstring \<Rightarrow> jsnum" where
  "parseInt inputString =
     (let S = dropWhile is_white_space inputString;
          negative = (case S of c # _ \<Rightarrow> c = 45 | [] \<Rightarrow> False);
          S1 = (case S of c # r \<Rightarrow> if c = 43 \<or> c = 45 then r else S | [] \<Rightarrow> S);
          hex = (case S1 of a # b # _ \<Rightarrow> a = 48 \<and> (b = 120 \<or> b = 88) | _ \<Rightarrow> False);
          R = (if hex then 16 else 10);
          S2 = (if hex then drop 2 S1 else S1);
          Z = takeWhile (\<lambda>c. digit_value c < R) S2
      in if Z = [] then NaN
         else round_dyadic negative (foldl (\<lambda>n c. n * R + digit_value c) 0 Z) 0)"

section \<open>The document as the script sees it\<close>

text \<open>
  Elements are named by numbers. Of an element the model keeps what the script reads or
  assigns: its text, the \<open>active\<close> class, the inline style properties (each holds the
  value last assigned), the attributes \<open>src\<close> and \<open>href\<close>, \<open>complete\<close>, \<open>offsetTop\<close> and,
  for the elements the script creates, the children.
\<close>

type_synonym elem = nat

record node =
  textContent :: jsstring
  active :: bool
  opacity :: jsstring
  transform :: jsstring
  transition :: jsstring
  background :: jsstring
  boxShadow :: jsstring
  cssText :: jsstring
  src :: jsstring
  complete :: bool
  href :: jsstring
  offsetTop :: int
  childNodes :: "elem list"

definition new_node :: node where
  "new_node = \<lparr>textContent = [], active = False, opacity = [], transform = [],
     transition = [], background = [], boxShadow = [], cssText = [], src = [],
     complete = False, href = [], offsetTop = 0, childNodes = []\<rparr>"

datatype error = TypeError | SyntaxError | NotFoundError

text \<open>
  The page is static under the script (it adds and removes no class other than \<open>active\<close>
  and gives the elements it creates none), so each selector the script queries has one
  answer, in document order. The page is given by these answers, by the elements' ids,
  and by the markup of the hero title as \<open>innerHTML\<close> returns it when the script starts.
\<close>

record page =
  q_hamburger :: "elem option"
  q_nav_menu :: "elem option"
  q_nav_menu_links :: "elem list"
  q_anchors :: "elem list"
  q_navbar :: "elem option"
  q_animated :: "elem list"
  q_stats :: "elem list"
  q_hero :: "elem option"
  q_hero_title :: "elem option"
  q_images :: "elem list"
  q_btns :: "elem list"
  q_gallery_images :: "elem list"
  by_id :: "jsstring \<Rightarrow> elem option"
  q_other :: "jsstring \<Rightarrow> error + elem option"
  hero_title_markup :: jsstring

subsection \<open>\<open>document.querySelector\<close> on an anchor's \<open>href\<close>\<close>

text \<open>
  A selector \<open>#name\<close>, where \<open>name\<close> consists of name code points only, is an id selector
  when \<open>name\<close> is an identifier, and is no selector at all otherwise (\<open>#\<close> alone, or a
  digit first): \<open>querySelector\<close> then throws a \<open>SyntaxError\<close>, as it does on the empty
  string. Every other selector string is answered by the page (\<open>q_other\<close>).
\<close>

definition is_name_start :: "int \<Rightarrow> bool" where
  "is_name_start c \<longleftrightarrow> (65 \<le> c \<and> c \<le> 90) \<or> (97 \<le> c \<and> c \<le> 122) \<or> c = 95 \<or> 128 \<le> c"

definition is_name_char :: "int \<Rightarrow> bool" where
  "is_name_char c \<longleftrightarrow> is_name_start c \<or> (48 \<le> c \<and> c \<le> 57) \<or> c = 45"

definition is_identifier :: "jsstring \<Rightarrow> bool" where
  "is_identifier name =
     (case name of
        [] \<Rightarrow> False
      | c # r \<Rightarrow>
          if c = 45 then (case r of [] \<Rightarrow> False | d # _ \<Rightarrow> is_name_start d \<or> d = 45)
          else is_name_start c)"

definition querySelector :: "page \<Rightarrow> jsstring \<Rightarrow> error + elem option" where
  "querySelector pg sel =
     (case sel of
        [] \<Rightarrow> Inl SyntaxError
      | c # name \<Rightarrow>
          if c = 35 \<and> list_all is_name_char name then
            (if is_identifier name then Inr (by_id pg name) else Inl SyntaxError)
          else q_other pg sel)"

subsection \<open>\<open>innerHTML\<close> of an element that holds character data\<close>

text \<open>
  Reading \<open>innerHTML\<close> serialises the children: in a text node \<open>&\<close>, \<open>U+00A0\<close>, \<open><\<close> and
  \<open>>\<close> are written as \<open>&amp;\<close>, \<open>&nbsp;\<close>, \<open>&lt;\<close> and \<open>&gt;\<close>.
\<close>

fun html_escape :: "jsstring \<Rightarrow> jsstring" where
  "html_escape [] = []"
| "html_escape (c # cs) =
     (if c = 38 then str ''&amp;''
      else if c = 160 then str ''&nbsp;''
      else if c = 60 then str ''&lt;''
      else if c = 62 then str ''&gt;''
      else [c]) @ html_escape cs"

text \<open>
  Assigning \<open>innerHTML\<close> runs the HTML fragment parser (the element is taken to be an
  ordinary flow element such as a heading). \<open>parse_text\<close> is the tokenizer's data state on
  inputs that yield character data only, and \<open>None\<close> on every other input: a \<open><\<close> that
  could open a tag or a comment, or a character reference other than the four above. A
  \<open><\<close> or \<open>&\<close> at the end of the input, or before a character that cannot continue it, is
  character data; \<open>U+0000\<close> is dropped and a carriage return becomes a line feed.
\<close>

definition is_ascii_alpha :: "int \<Rightarrow> bool" where
  "is_ascii_alpha c \<longleftrightarrow> (65 \<le> c \<and> c \<le> 90) \<or> (97 \<le> c \<and> c \<le> 122)"

definition is_ascii_alnum :: "int \<Rightarrow> bool" where
  "is_ascii_alnum c \<longleftrightarrow> is_ascii_alpha c \<or> (48 \<le> c \<and> c \<le> 57)"

definition starts_with :: "jsstring \<Rightarrow> jsstring \<Rightarrow> bool" where
  "starts_with p s \<longleftrightarrow> take (length p) s = p"

function parse_text :: "jsstring \<Rightarrow> jsstring option" where
  "parse_text [] = Some []"
| "parse_text (c # cs) =
     (if c = 60 then
        (case cs of
           [] \<Rightarrow> Some [60]
         | d # _ \<Rightarrow>
             if is_ascii_alpha d \<or> d = 33 \<or> d = 47 \<or> d = 63 then None
             else map_option ((#) 60) (parse_text cs))
      else if c = 38 then
        (if starts_with (str ''amp;'') cs then map_option ((#) 38) (parse_text (drop 4 cs))
         else if starts_with (str ''lt;'') cs then map_option ((#) 60) (parse_text (drop 3 cs))
         else if starts_with (str ''gt;'') cs then map_option ((#) 62) (parse_text (drop 3 cs))
         else if starts_with (str ''nbsp;'') cs then map_option ((#) 160) (parse_text (drop 5 cs))
         else (case cs of
                 [] \<Rightarrow> Some [38]
               | d # _ \<Rightarrow>
                   if is_ascii_alnum d \<or> d = 35 then None
                   else map_option ((#) 38) (parse_text cs)))
      else if c = 0 then parse_text cs
      else if c = 13 then
        map_option ((#) 10) (parse_text (case cs of [] \<Rightarrow> [] | d # r \<Rightarrow> if d = 10 then r else cs))
      else map_option ((#) c) (parse_text cs))"
  by pat_completeness auto
termination
  by (relation "measure length") (auto split: list.splits)


section \<open>The state of the running page\<close>

datatype event_target = Window | Document | Element elem

datatype listener =
    HamburgerClick | NavLinkClick | AnchorClick | NavbarScroll | ContentLoaded
  | ParallaxScroll | ImageLoad | KonamiKeydown | BtnMouseEnter | BtnMouseLeave
  | GalleryClick | ModalClick

text \<open>
  The closure of one call of \<open>animateCounter\<close>: its constants and its variable
  \<open>current\<close>.
\<close>

record counter =
  element :: elem
  target :: jsstring
  numericTarget :: jsnum
  increment :: jsnum
  current :: jsnum

datatype callback = CounterTick counter | KonamiDone | TypeWriter

record timer =
  callback :: callback
  delay :: nat
  repeating :: bool

datatype effect = PreventDefault | ScrollSmooth int | Alert jsstring

text \<open>
  Besides the elements, the state holds the children of \<open>body\<close> and \<open>head\<close>, the
  \<open>animation\<close> style of \<open>body\<close>, the registered listeners in registration order, the
  targets of the two intersection observers, the pending timers by id, the script's
  variables \<open>konamiIndex\<close>, \<open>originalText\<close> and \<open>i\<close>, the character data of the hero title
  once the script has cleared it (\<open>None\<close> when an assignment to \<open>innerHTML\<close> was outside
  \<open>parse_text\<close>), what the script did to the window (prevented defaults, scroll requests,
  alerts) and the errors thrown out of the script or a handler.
\<close>

record state =
  nodes :: "elem \<Rightarrow> node"
  next_elem :: elem
  body_children :: "elem list"
  head_children :: "elem list"
  body_animation :: jsstring
  listeners :: "(event_target \<times> listener) list"
  observed :: "elem list"
  stats_observed :: "elem list"
  timers :: "nat \<Rightarrow> timer option"
  next_timer :: nat
  konamiIndex :: nat
  originalText :: jsstring
  type_i :: nat
  title_text :: "jsstring option"
  effects :: "effect list"
  uncaught :: "error list"

definition initial_state :: "(elem \<Rightarrow> node) \<Rightarrow> elem \<Rightarrow> elem list \<Rightarrow> state" where
  "initial_state ns n body =
     \<lparr>nodes = ns, next_elem = n, body_children = body, head_children = [],
      body_animation = [], listeners = [], observed = [], stats_observed = [],
      timers = Map.empty, next_timer = 0, konamiIndex = 0, originalText = [], type_i = 0,
      title_text = None, effects = [], uncaught = []\<rparr>"

definition set_node :: "elem \<Rightarrow> (node \<Rightarrow> node) \<Rightarrow> state \<Rightarrow> state" where
  "set_node e f s = s\<lparr>nodes := (nodes s)(e := f (nodes s e))\<rparr>"

definition throw :: "error \<Rightarrow> state \<Rightarrow> state" where
  "throw err s = s\<lparr>uncaught := uncaught s @ [err]\<rparr>"

definition addEventListener :: "event_target \<Rightarrow> listener \<Rightarrow> state \<Rightarrow> state" where
  "addEventListener t l s = s\<lparr>listeners := listeners s @ [(t, l)]\<rparr>"

definition set_timer :: "callback \<Rightarrow> nat \<Rightarrow> bool \<Rightarrow> state \<Rightarrow> state" where
  "set_timer cb d r s =
     s\<lparr>timers := (timers s)(next_timer s \<mapsto> \<lparr>callback = cb, delay = d, repeating = r\<rparr>),
       next_timer := Suc (next_timer s)\<rparr>"

definition setInterval :: "callback \<Rightarrow> nat \<Rightarrow> state \<Rightarrow> state" where
  "setInterval cb d s = set_timer cb d True s"

definition setTimeout :: "callback \<Rightarrow> nat \<Rightarrow> state \<Rightarrow> state" where
  "setTimeout cb d s = set_timer cb d False s"

definition clearInterval :: "nat \<Rightarrow> state \<Rightarrow> state" where
  "clearInterval tid s = s\<lparr>timers := (timers s)(tid := None)\<rparr>"

definition createElement :: "state \<Rightarrow> elem \<times> state" where
  "createElement s =
     (next_elem s, s\<lparr>nodes := (nodes s)(next_elem s := new_node), next_elem := Suc (next_elem s)\<rparr>)"

section \<open>The script\<close>

subsection \<open>Mobile navigation (lines 1 to 16)\<close>

definition hamburger_click :: "page \<Rightarrow> state \<Rightarrow> state" where
  "hamburger_click pg s =
     (case q_hamburger pg of
        None \<Rightarrow> throw TypeError s
      | Some h \<Rightarrow>
          let s1 = set_node h (\<lambda>n. n\<lparr>active := \<not> active n\<rparr>) s
          in (case q_nav_menu pg of
                None \<Rightarrow> throw TypeError s1
              | Some m \<Rightarrow> set_node m (\<lambda>n. n\<lparr>active := \<not> active n\<rparr>) s1))"

definition navlink_click :: "page \<Rightarrow> state \<Rightarrow> state" where
  "navlink_click pg s =
     (case q_hamburger pg of
        None \<Rightarrow> throw TypeError s
      | Some h \<Rightarrow>
          let s1 = set_node h (\<lambda>n. n\<lparr>active := False\<rparr>) s
          in (case q_nav_menu pg of
                None \<Rightarrow> throw TypeError s1
              | Some m \<Rightarrow> set_node m (\<lambda>n. n\<lparr>active := False\<rparr>) s1))"

subsection \<open>Smooth scrolling (lines 18 to 31)\<close>

definition anchor_click :: "page \<Rightarrow> elem \<Rightarrow> state \<Rightarrow> state" where
  "anchor_click pg anchor s =
     (let s1 = s\<lparr>effects := effects s @ [PreventDefault]\<rparr>
      in case querySelector pg (href (nodes s1 anchor)) of
           Inl err \<Rightarrow> throw err s1
         | Inr None \<Rightarrow> s1
         | Inr (Some t) \<Rightarrow>
             s1\<lparr>effects := effects s1 @ [ScrollSmooth (offsetTop (nodes s1 t) - 80)]\<rparr>)"

subsection \<open>Navbar background (lines 33 to 43)\<close>

definition navbar_scroll :: "page \<Rightarrow> jsnum \<Rightarrow> state \<Rightarrow> state" where
  "navbar_scroll pg scrollY s =
     (case q_navbar pg of
        None \<Rightarrow> throw TypeError s
      | Some navbar \<Rightarrow>
          if jsgt scrollY (num 100) then
            set_node navbar (\<lambda>n. n\<lparr>background := str ''rgba(255, 255, 255, 0.98)'',
                                   boxShadow := str ''0 2px 20px rgba(0, 0, 0, 0.1)''\<rparr>) s
          else
            set_node navbar (\<lambda>n. n\<lparr>background := str ''rgba(255, 255, 255, 0.95)'',
                                   boxShadow := str ''none''\<rparr>) s)"

subsection \<open>Reveal on intersection (lines 45 to 69)\<close>

definition reveal_entry :: "elem \<times> bool \<Rightarrow> state \<Rightarrow> state" where
  "reveal_entry entry s =
     (if snd entry then
        set_node (fst entry) (\<lambda>n. n\<lparr>opacity := str ''1'', transform := str ''translateY(0)''\<rparr>) s
      else s)"

definition observer_callback :: "(elem \<times> bool) list \<Rightarrow> state \<Rightarrow> state" where
  "observer_callback entries s = fold reveal_entry entries s"

definition init_animated :: "elem \<Rightarrow> state \<Rightarrow> state" where
  "init_animated el s =
     (let s1 = set_node el (\<lambda>n. n\<lparr>opacity := str ''0'', transform := str ''translateY(30px)'',
                 transition := str ''opacity 0.6s ease, transform 0.6s ease''\<rparr>) s
      in s1\<lparr>observed := observed s1 @ [el]\<rparr>)"

subsection \<open>Counters (lines 71 to 107)\<close>

definition counter_tick :: "nat \<Rightarrow> timer \<Rightarrow> counter \<Rightarrow> state \<Rightarrow> state" where
  "counter_tick tid tm c s =
     (let cur = jsadd (current c) (increment c);
          s1 = s\<lparr>timers := (timers s)(tid \<mapsto> tm\<lparr>callback := CounterTick (c\<lparr>current := cur\<rparr>)\<rparr>)\<rparr>
      in if jsge cur (numericTarget c) then
           clearInterval tid (set_node (element c) (\<lambda>n. n\<lparr>textContent := target c\<rparr>) s1)
         else
           set_node (element c)
             (\<lambda>n. n\<lparr>textContent := ToString (Math_floor cur)
                        @ (if includes_plus (target c) then str ''+'' else [])\<rparr>) s1)"

definition animateCounter :: "elem \<Rightarrow> state \<Rightarrow> state" where
  "animateCounter el s =
     (let tgt = textContent (nodes s el);
          isInfinity = (tgt = INFINITY_SIGN)
      in if isInfinity then s
         else let n = parseInt (replace_plus tgt)
              in setInterval
                   (CounterTick \<lparr>element = el, target = tgt, numericTarget = n,
                      increment = jsdiv n (num 50), current = num 0\<rparr>) 30 s)"

definition stats_entry :: "elem \<times> bool \<Rightarrow> state \<Rightarrow> state" where
  "stats_entry entry s =
     (if snd entry then
        (let s1 = animateCounter (fst entry) s
         in s1\<lparr>stats_observed := removeAll (fst entry) (stats_observed s1)\<rparr>)
      else s)"

definition statsObserver_callback :: "(elem \<times> bool) list \<Rightarrow> state \<Rightarrow> state" where
  "statsObserver_callback entries s = fold stats_entry entries s"

definition observe_stat :: "elem \<Rightarrow> state \<Rightarrow> state" where
  "observe_stat stat s =
     (if textContent (nodes s stat) \<noteq> INFINITY_SIGN
      then s\<lparr>stats_observed := stats_observed s @ [stat]\<rparr> else s)"

definition content_loaded :: "page \<Rightarrow> state \<Rightarrow> state" where
  "content_loaded pg s = fold observe_stat (q_stats pg) (fold init_animated (q_animated pg) s)"


subsection \<open>Parallax (lines 110 to 119)\<close>

definition parallax_scroll :: "page \<Rightarrow> jsnum \<Rightarrow> state \<Rightarrow> state" where
  "parallax_scroll pg scrolled s =
     (let speed = jsmul scrolled one_half
      in case q_hero pg of
           None \<Rightarrow> s
         | Some parallax \<Rightarrow>
             set_node parallax
               (\<lambda>n. n\<lparr>transform := str ''translateY('' @ ToString speed @ str ''px)''\<rparr>) s)"

subsection \<open>Typing effect (lines 121 to 137)\<close>

text \<open>
  \<open>heroTitle.innerHTML += c\<close> reads the serialised children, appends the character and
  has the result parsed again.
\<close>

definition typeWriter :: "state \<Rightarrow> state" where
  "typeWriter s =
     (if type_i s < length (originalText s) then
        setTimeout TypeWriter 100
          (s\<lparr>title_text :=
                (case title_text s of
                   None \<Rightarrow> None
                 | Some t \<Rightarrow> parse_text (html_escape t @ [originalText s ! type_i s])),
              type_i := type_i s + 1\<rparr>)
      else s)"

definition init_typing :: "page \<Rightarrow> state \<Rightarrow> state" where
  "init_typing pg s =
     (case q_hero_title pg of
        None \<Rightarrow> s
      | Some heroTitle \<Rightarrow>
          setTimeout TypeWriter 1000
            (s\<lparr>originalText := hero_title_markup pg, title_text := parse_text [], type_i := 0\<rparr>))"

subsection \<open>Image fade (lines 139 to 153)\<close>

definition image_load :: "elem \<Rightarrow> state \<Rightarrow> state" where
  "image_load img s = set_node img (\<lambda>n. n\<lparr>opacity := str ''1''\<rparr>) s"

definition init_image :: "elem \<Rightarrow> state \<Rightarrow> state" where
  "init_image img s =
     (let s1 = set_node img (\<lambda>n. n\<lparr>opacity := str ''0'',
                 transition := str ''opacity 0.5s ease''\<rparr>) s;
          s2 = addEventListener (Element img) ImageLoad s1
      in if complete (nodes s2 img) then set_node img (\<lambda>n. n\<lparr>opacity := str ''1''\<rparr>) s2
         else s2)"

subsection \<open>Konami code (lines 155 to 174)\<close>

definition konamiCode :: "jsstring list" where
  "konamiCode = map str [''ArrowUp'', ''ArrowUp'', ''ArrowDown'', ''ArrowDown'', ''ArrowLeft'',
     ''ArrowRight'', ''ArrowLeft'', ''ArrowRight'', ''KeyB'', ''KeyA'']"

definition celebration :: jsstring where
  "celebration = [55356, 57225, 32, 1042, 1072, 1083, 1077, 1085, 1090, 1080, 1085, 32, 1076,
     1077, 1081, 1089, 1090, 1074, 1080, 1090, 1077, 1083, 1100, 1085, 1086, 32, 1074, 1077,
     1083, 1080, 1082, 1080, 1081, 33, 32, 1040, 32, 1074, 1099, 32, 45, 32, 1082, 1088, 1091,
     1090, 1086, 1081, 32, 1088, 1072, 1079, 1088, 1072, 1073, 1086, 1090, 1095, 1080, 1082,
     33, 32, 55356, 57225]"

text \<open>Reading an array beyond its end gives \<open>undefined\<close>, which no key code equals.\<close>

definition array_get :: "'a list \<Rightarrow> nat \<Rightarrow> 'a option" where
  "array_get xs n = (if n < length xs then Some (xs ! n) else None)"

definition konami_keydown :: "jsstring \<Rightarrow> state \<Rightarrow> state" where
  "konami_keydown code s =
     (if array_get konamiCode (konamiIndex s) = Some code then
        (let s1 = s\<lparr>konamiIndex := konamiIndex s + 1\<rparr>
         in if konamiIndex s1 = length konamiCode then
              (setTimeout KonamiDone 2000
                 (s1\<lparr>body_animation := str ''rainbow 2s infinite''\<rparr>))\<lparr>konamiIndex := 0\<rparr>
            else s1)
      else s\<lparr>konamiIndex := 0\<rparr>)"

definition konami_done :: "state \<Rightarrow> state" where
  "konami_done s = s\<lparr>body_animation := [], effects := effects s @ [Alert celebration]\<rparr>"

subsection \<open>Rainbow style sheet (lines 176 to 189)\<close>

definition rainbowCSS :: jsstring where
  "rainbowCSS = str ''\<newline>@keyframes rainbow {\<newline>    0% { filter: hue-rotate(0deg); }\<newline>    25% { filter: hue-rotate(90deg); }\<newline>    50% { filter: hue-rotate(180deg); }\<newline>    75% { filter: hue-rotate(270deg); }\<newline>    100% { filter: hue-rotate(360deg); }\<newline>}\<newline>''"

definition init_style :: "state \<Rightarrow> state" where
  "init_style s =
     (let (style, s1) = createElement s;
          s2 = set_node style (\<lambda>n. n\<lparr>textContent := rainbowCSS\<rparr>) s1
      in s2\<lparr>head_children := head_children s2 @ [style]\<rparr>)"

subsection \<open>Button hover (lines 191 to 200)\<close>

definition btn_mouseenter :: "elem \<Rightarrow> state \<Rightarrow> state" where
  "btn_mouseenter btn s =
     set_node btn (\<lambda>n. n\<lparr>transform := str ''translateY(-3px) scale(1.05)''\<rparr>) s"

definition btn_mouseleave :: "elem \<Rightarrow> state \<Rightarrow> state" where
  "btn_mouseleave btn s =
     set_node btn (\<lambda>n. n\<lparr>transform := str ''translateY(0) scale(1)''\<rparr>) s"

definition init_btn :: "elem \<Rightarrow> state \<Rightarrow> state" where
  "init_btn btn s =
     addEventListener (Element btn) BtnMouseLeave (addEventListener (Element btn) BtnMouseEnter s)"

subsection \<open>Lightbox (lines 202 to 236)\<close>

definition modal_cssText :: jsstring where
  "modal_cssText = str ''\<newline>            position: fixed;\<newline>            top: 0;\<newline>            left: 0;\<newline>            width: 100%;\<newline>            height: 100%;\<newline>            background: rgba(0, 0, 0, 0.9);\<newline>            z-index: 10000;\<newline>            display: flex;\<newline>            justify-content: center;\<newline>            align-items: center;\<newline>            cursor: pointer;\<newline>        ''"

definition modalImg_cssText :: jsstring where
  "modalImg_cssText = str ''\<newline>            max-width: 90%;\<newline>            max-height: 90%;\<newline>            object-fit: contain;\<newline>            border-radius: 10px;\<newline>        ''"

text \<open>
  \<open>removeChild\<close> throws a \<open>NotFoundError\<close> when the node is not a child of \<open>body\<close>.
\<close>

definition modal_click :: "elem \<Rightarrow> state \<Rightarrow> state" where
  "modal_click modal s =
     (if modal \<in> set (body_children s)
      then s\<lparr>body_children := remove1 modal (body_children s)\<rparr>
      else throw NotFoundError s)"

definition gallery_click :: "elem \<Rightarrow> state \<Rightarrow> state" where
  "gallery_click img s =
     (let (modal, s1) = createElement s;
          s2 = set_node modal (\<lambda>n. n\<lparr>cssText := modal_cssText\<rparr>) s1;
          (modalImg, s3) = createElement s2;
          s4 = set_node modalImg (\<lambda>n. n\<lparr>src := src (nodes s3 img)\<rparr>) s3;
          s5 = set_node modalImg (\<lambda>n. n\<lparr>cssText := modalImg_cssText\<rparr>) s4;
          s6 = set_node modal (\<lambda>n. n\<lparr>childNodes := childNodes n @ [modalImg]\<rparr>) s5;
          s7 = s6\<lparr>body_children := body_children s6 @ [modal]\<rparr>
      in addEventListener (Element modal) ModalClick s7)"

subsection \<open>The script from top to bottom\<close>

text \<open>
  An exception at the top level ends the script: the statements after line 5 run only
  when \<open>.hamburger\<close> exists.
\<close>

definition run_script :: "page \<Rightarrow> state \<Rightarrow> state" where
  "run_script pg s =
     (case q_hamburger pg of
        None \<Rightarrow> throw TypeError s
      | Some hamburger \<Rightarrow>
          let s1 = addEventListener (Element hamburger) HamburgerClick s;
              s2 = fold (\<lambda>link. addEventListener (Element link) NavLinkClick) (q_nav_menu_links pg) s1;
              s3 = fold (\<lambda>anchor. addEventListener (Element anchor) AnchorClick) (q_anchors pg) s2;
              s4 = addEventListener Window NavbarScroll s3;
              s5 = addEventListener Document ContentLoaded s4;
              s6 = addEventListener Window ParallaxScroll s5;
              s7 = init_typing pg s6;
              s8 = fold init_image (q_images pg) s7;
              s9 = addEventListener Document KonamiKeydown (s8\<lparr>konamiIndex := 0\<rparr>);
              s10 = init_style s9;
              s11 = fold init_btn (q_btns pg) s10
          in fold (\<lambda>img. addEventListener (Element img) GalleryClick) (q_gallery_images pg) s11)"

section \<open>Events\<close>

text \<open>
  An event reaches the listeners registered for its target and type, in registration
  order (\<open>Click e\<close> stands for a click that reaches the listeners of \<open>e\<close>, on \<open>e\<close> or
  bubbling from inside it). The two intersection observers report entries (target,
  \<open>isIntersecting\<close>) for their own targets only. A timer that fires runs its callback;
  a timeout is spent by firing.
\<close>

datatype event =
    Click elem | Scroll jsnum | DOMContentLoaded | Load elem | KeyDown jsstring
  | MouseEnter elem | MouseLeave elem
  | Intersection "(elem \<times> bool) list" | StatsIntersection "(elem \<times> bool) list"
  | TimerFires nat

definition run_listener :: "page \<Rightarrow> event \<Rightarrow> event_target \<times> listener \<Rightarrow> state \<Rightarrow> state" where
  "run_listener pg ev reg s =
     (case ev of
        Click e \<Rightarrow>
          (if fst reg = Element e then
             (case snd reg of
                HamburgerClick \<Rightarrow> hamburger_click pg s
              | NavLinkClick \<Rightarrow> navlink_click pg s
              | AnchorClick \<Rightarrow> anchor_click pg e s
              | GalleryClick \<Rightarrow> gallery_click e s
              | ModalClick \<Rightarrow> modal_click e s
              | _ \<Rightarrow> s)
           else s)
      | Scroll y \<Rightarrow>
          (if fst reg = Window then
             (case snd reg of
                NavbarScroll \<Rightarrow> navbar_scroll pg y s
              | ParallaxScroll \<Rightarrow> parallax_scroll pg y s
              | _ \<Rightarrow> s)
           else s)
      | DOMContentLoaded \<Rightarrow> (if reg = (Document, ContentLoaded) then content_loaded pg s else s)
      | Load e \<Rightarrow> (if reg = (Element e, ImageLoad) then image_load e s else s)
      | KeyDown code \<Rightarrow> (if reg = (Document, KonamiKeydown) then konami_keydown code s else s)
      | MouseEnter e \<Rightarrow> (if reg = (Element e, BtnMouseEnter) then btn_mouseenter e s else s)
      | MouseLeave e \<Rightarrow> (if reg = (Element e, BtnMouseLeave) then btn_mouseleave e s else s)
      | _ \<Rightarrow> s)"

definition fire_timer :: "nat \<Rightarrow> state \<Rightarrow> state" where
  "fire_timer tid s =
     (case timers s tid of
        None \<Rightarrow> s
      | Some tm \<Rightarrow>
          (case callback tm of
             CounterTick c \<Rightarrow> counter_tick tid tm c s
           | KonamiDone \<Rightarrow> konami_done (clearInterval tid s)
           | TypeWriter \<Rightarrow> typeWriter (clearInterval tid s)))"

definition step :: "page \<Rightarrow> event \<Rightarrow> state \<Rightarrow> state" where
  "step pg ev s =
     (case ev of
        Intersection entries \<Rightarrow>
          observer_callback (filter (\<lambda>en. fst en \<in> set (observed s)) entries) s
      | StatsIntersection entries \<Rightarrow>
          statsObserver_callback (filter (\<lambda>en. fst en \<in> set (stats_observed s)) entries) s
      | TimerFires tid \<Rightarrow> fire_timer tid s
      | _ \<Rightarrow> fold (run_listener pg ev) (listeners s) s)"

definition run :: "page \<Rightarrow> event list \<Rightarrow> state \<Rightarrow> state" where
  "run pg evs s = fold (step pg) evs s"


section \<open>Event sequences\<close>

text \<open>Scroll events and the reports of the two intersection observers.\<close>

fun scroll_or_intersection :: "event \<Rightarrow> bool" where
  "scroll_or_intersection (Scroll y) = True"
| "scroll_or_intersection (Intersection entries) = True"
| "scroll_or_intersection (StatsIntersection entries) = True"
| "scroll_or_intersection ev = False"

text \<open>
  The events of the counters: the page load that registers them, the reports of the
  intersection observers, and the ticks of counter intervals.
\<close>

fun is_counter_tick :: "callback \<Rightarrow> bool" where
  "is_counter_tick (CounterTick c) = True"
| "is_counter_tick cb = False"

fun counter_event :: "state \<Rightarrow> event \<Rightarrow> bool" where
  "counter_event s DOMContentLoaded = True"
| "counter_event s (Intersection entries) = True"
| "counter_event s (StatsIntersection entries) = True"
| "counter_event s (TimerFires tid) =
     (case timers s tid of None \<Rightarrow> False | Some tm \<Rightarrow> is_counter_tick (callback tm))"
| "counter_event s ev = False"

fun counter_events :: "page \<Rightarrow> event list \<Rightarrow> state \<Rightarrow> bool" where
  "counter_events pg [] s = True"
| "counter_events pg (ev # evs) s = (counter_event s ev \<and> counter_events pg evs (step pg ev s))"

text \<open>An interval that animates the element \<open>el\<close>.\<close>

fun counter_on :: "elem \<Rightarrow> callback \<Rightarrow> bool" where
  "counter_on el (CounterTick c) = (element c = el)"
| "counter_on el cb = False"

text \<open>
  The running value of a counter after \<open>k\<close> ticks, and the number of the first tick, among
  the first \<open>fuel\<close>, at which the running value has reached the target.
\<close>

definition running :: "jsnum \<Rightarrow> nat \<Rightarrow> jsnum" where
  "running inc k = ((\<lambda>c. jsadd c inc) ^^ k) (num 0)"

fun ticks_to_reach :: "jsnum \<Rightarrow> jsnum \<Rightarrow> jsnum \<Rightarrow> nat \<Rightarrow> nat option" where
  "ticks_to_reach inc n cur 0 = None"
| "ticks_to_reach inc n cur (Suc fuel) =
     (let c = jsadd cur inc
      in if jsge c n then Some 1 else map_option Suc (ticks_to_reach inc n c fuel))"

text \<open>
  The specification's wording of the parse, to compare with the script's
  \<open>parseInt(target.replace('+', ''))\<close>: a trailing \<open>+\<close> is stripped before the text is parsed.
\<close>

definition spec_strip_trailing_plus :: "jsstring \<Rightarrow> jsstring" where
  "spec_strip_trailing_plus s = (if s \<noteq> [] \<and> last s = 43 then butlast s else s)"

text \<open>
  The character data that typing a captured markup leaves in the title: every code unit
  of the markup as a character, \<open>U+0000\<close> dropped and a carriage return as a line feed.
\<close>

definition typed_text :: "jsstring \<Rightarrow> jsstring" where
  "typed_text m = concat (map (\<lambda>c. if c = 0 then [] else if c = 13 then [10] else [c]) m)"

text \<open>\<open>heroTitle.innerHTML\<close>, read after the script has cleared the title.\<close>

definition title_innerHTML :: "state \<Rightarrow> jsstring option" where
  "title_innerHTML s = map_option html_escape (title_text s)"

section \<open>A small page\<close>

text \<open>
  A page with one element of each kind, numbered in document order: the hamburger (0),
  the menu (1) with one link to \<open>#about\<close> (2), the navbar (3), the hero (4) with its title
  (5), the about grid (6), a stat (7) with the counters \<open>120+\<close> (8) and \<open>U+221E\<close> (9), a
  gallery item (10) with its image (11), a button (12) and a link to \<open>#\<close> (13).
\<close>

definition example_nodes :: "elem \<Rightarrow> node" where
  "example_nodes e =
     (if e = 2 then new_node\<lparr>href := str ''#about''\<rparr>
      else if e = 6 then new_node\<lparr>offsetTop := 640\<rparr>
      else if e = 8 then new_node\<lparr>textContent := str ''120+''\<rparr>
      else if e = 9 then new_node\<lparr>textContent := INFINITY_SIGN\<rparr>
      else if e = 11 then new_node\<lparr>src := str ''photo.jpg'', complete := True\<rparr>
      else if e = 13 then new_node\<lparr>href := str ''#''\<rparr>
      else new_node)"

definition example_page :: page where
  "example_page =
     \<lparr>q_hamburger = Some 0, q_nav_menu = Some 1, q_nav_menu_links = [2], q_anchors = [2, 13],
      q_navbar = Some 3, q_animated = [6, 10, 7], q_stats = [8, 9], q_hero = Some 4,
      q_hero_title = Some 5, q_images = [11], q_btns = [12], q_gallery_images = [11],
      by_id = (\<lambda>name. if name = str ''about'' then Some 6 else None),
      q_other = (\<lambda>sel. Inr None), hero_title_markup = str ''Hi''\<rparr>"

definition example_start :: state where
  "example_start = initial_state example_nodes 14 [3, 4, 6, 7, 10, 12, 13]"

definition example_state :: state where
  "example_state = run_script example_page example_start"

text \<open>The small page after \<open>DOMContentLoaded\<close>.\<close>

definition example_loaded :: state where
  "example_loaded = step example_page DOMContentLoaded example_state"

text \<open>The small page with the classes \<open>hero\<close> and \<open>about-grid\<close> on the same element (6).\<close>

definition overlap_page :: page where
  "overlap_page = example_page\<lparr>q_hero := Some 6\<rparr>"

text \<open>The small page with markup in its hero title.\<close>

definition markup_page :: page where
  "markup_page = example_page\<lparr>hero_title_markup := str ''<b>A</b>''\<rparr>"

text \<open>The small page after \<open>DOMContentLoaded\<close>, with the text \<open>t\<close> in the counter 8.\<close>

definition counter_page_loaded :: "jsstring \<Rightarrow> state" where
  "counter_page_loaded t =
     step example_page DOMContentLoaded
       (run_script example_page
          (initial_state (example_nodes(8 := new_node\<lparr>textContent := t\<rparr>)) 14
             [3, 4, 6, 7, 10, 12, 13]))"

section \<open>Key-down events and the Konami detector\<close>

lemma step_KeyDown: "step pg (KeyDown k) s = fold (run_listener pg (KeyDown k)) (listeners s) s"
  by (simp add: step_def)

lemma listeners_konami_keydown [simp]: "listeners (konami_keydown k s) = listeners s"
  by (simp add: konami_keydown_def setTimeout_def set_timer_def Let_def)

text \<open>A key-down event runs the detector once for each time it is registered.\<close>

lemma fold_keydown:
  "fold (run_listener pg (KeyDown k)) ls s =
     (konami_keydown k ^^ count_list ls (Document, KonamiKeydown)) s"
proof (induction ls arbitrary: s)
  case Nil
  then show ?case by simp
next
  case (Cons r ls)
  show ?case
  proof (cases "r = (Document, KonamiKeydown)")
    case True
    then show ?thesis using Cons.IH [of "konami_keydown k s"]
      by (simp add: run_listener_def funpow_swap1)
  next
    case False
    then show ?thesis using Cons.IH [of s] by (simp add: run_listener_def)
  qed
qed

lemma run_keys:
  "count_list (listeners s) (Document, KonamiKeydown) = 1 \<Longrightarrow>
     run pg (map KeyDown ks) s = fold konami_keydown ks s"
proof (induction ks arbitrary: s)
  case Nil
  then show ?case by (simp add: run_def)
next
  case (Cons k ks)
  have "run pg (map KeyDown (k # ks)) s = run pg (map KeyDown ks) (step pg (KeyDown k) s)"
    by (simp add: run_def)
  also have "\<dots> = run pg (map KeyDown ks) (konami_keydown k s)"
    using Cons.prems by (simp add: step_KeyDown fold_keydown)
  also have "\<dots> = fold konami_keydown ks (konami_keydown k s)"
    using Cons.prems by (intro Cons.IH) simp
  finally show ?case by simp
qed

lemma konami_match:
  "konamiIndex s = n \<Longrightarrow> n < 9 \<Longrightarrow> konamiCode ! n = k \<Longrightarrow>
     konami_keydown k s = s\<lparr>konamiIndex := Suc n\<rparr>"
  by (simp add: konami_keydown_def array_get_def konamiCode_def Let_def)

lemma konami_last:
  "konamiIndex s = 9 \<Longrightarrow>
     konami_keydown (str ''KeyA'') s =
       s\<lparr>body_animation := str ''rainbow 2s infinite'',
         timers := (timers s)(next_timer s \<mapsto>
           \<lparr>callback = KonamiDone, delay = 2000, repeating = False\<rparr>),
         next_timer := Suc (next_timer s), konamiIndex := 0\<rparr>"
  by (simp add: konami_keydown_def array_get_def konamiCode_def Let_def setTimeout_def
      set_timer_def)

lemma konami_miss:
  "konamiIndex s = 9 \<Longrightarrow> k \<noteq> str ''KeyA'' \<Longrightarrow> konami_keydown k s = s\<lparr>konamiIndex := 0\<rparr>"
  by (auto simp add: konami_keydown_def array_get_def konamiCode_def Let_def)

lemma konami_nine:
  "konamiIndex s = 0 \<Longrightarrow> fold konami_keydown (take 9 konamiCode) s = s\<lparr>konamiIndex := 9\<rparr>"
  by (simp add: konamiCode_def konami_match)

lemma konami_full:
  assumes "konamiIndex s = 0"
  shows "fold konami_keydown konamiCode s =
           s\<lparr>body_animation := str ''rainbow 2s infinite'',
             timers := (timers s)(next_timer s \<mapsto>
               \<lparr>callback = KonamiDone, delay = 2000, repeating = False\<rparr>),
             next_timer := Suc (next_timer s), konamiIndex := 0\<rparr>"
proof -
  have "konamiCode = take 9 konamiCode @ [str ''KeyA'']"
    by (simp add: konamiCode_def)
  then have "fold konami_keydown konamiCode s =
      konami_keydown (str ''KeyA'') (fold konami_keydown (take 9 konamiCode) s)"
    by (metis comp_apply fold_Cons fold_Nil fold_append id_apply)
  then show ?thesis using assms by (simp add: konami_nine konami_last)
qed

lemma example_konami_registered:
  "count_list (listeners example_state) (Document, KonamiKeydown) = 1"
  by code_simp

lemma example_konamiIndex: "konamiIndex example_state = 0"
  by code_simp

text \<open>
  C2. On a page where the detector is registered (once, as the script does) and no key
  of the sequence has been matched yet: the ten keys of the sequence, fed as key-down
  events, activate the easter egg once (the body gets the rainbow animation and one
  timeout of 2000 ms for the message is set) and leave the index at zero; nine correct
  keys and then any key other than \<open>KeyA\<close> leave the index at zero and activate nothing
  (the state is unchanged); the sequence fed twice in a row activates the easter egg
  twice (two timeouts are set).
\<close>

theorem konami_detector:
  assumes "count_list (listeners s) (Document, KonamiKeydown) = 1" and "konamiIndex s = 0"
  shows "run pg (map KeyDown konamiCode) s =
           s\<lparr>body_animation := str ''rainbow 2s infinite'',
             timers := (timers s)(next_timer s \<mapsto>
               \<lparr>callback = KonamiDone, delay = 2000, repeating = False\<rparr>),
             next_timer := Suc (next_timer s), konamiIndex := 0\<rparr>
       \<and> (k \<noteq> str ''KeyA'' \<longrightarrow>
            run pg (map KeyDown (take 9 konamiCode @ [k])) s = s\<lparr>konamiIndex := 0\<rparr>)
       \<and> run pg (map KeyDown (konamiCode @ konamiCode)) s =
           s\<lparr>body_animation := str ''rainbow 2s infinite'',
             timers := (timers s)(next_timer s \<mapsto>
               \<lparr>callback = KonamiDone, delay = 2000, repeating = False\<rparr>,
               Suc (next_timer s) \<mapsto> \<lparr>callback = KonamiDone, delay = 2000, repeating = False\<rparr>),
             next_timer := Suc (Suc (next_timer s)), konamiIndex := 0\<rparr>"
proof (intro conjI impI)
  show "run pg (map KeyDown konamiCode) s =
           s\<lparr>body_animation := str ''rainbow 2s infinite'',
             timers := (timers s)(next_timer s \<mapsto>
               \<lparr>callback = KonamiDone, delay = 2000, repeating = False\<rparr>),
             next_timer := Suc (next_timer s), konamiIndex := 0\<rparr>"
    using assms by (simp add: run_keys konami_full)
next
  assume miss: "k \<noteq> str ''KeyA''"
  have "run pg (map KeyDown (take 9 konamiCode @ [k])) s =
          konami_keydown k (fold konami_keydown (take 9 konamiCode) s)"
    using assms(1) by (simp only: run_keys fold_append fold_simps comp_apply id_apply)
  then show "run pg (map KeyDown (take 9 konamiCode @ [k])) s = s\<lparr>konamiIndex := 0\<rparr>"
    using assms(2) miss by (simp add: konami_nine konami_miss)
next
  have "run pg (map KeyDown (konamiCode @ konamiCode)) s =
          fold konami_keydown konamiCode (fold konami_keydown konamiCode s)"
    using assms(1) by (simp only: run_keys fold_append comp_apply)
  then show "run pg (map KeyDown (konamiCode @ konamiCode)) s =
           s\<lparr>body_animation := str ''rainbow 2s infinite'',
             timers := (timers s)(next_timer s \<mapsto>
               \<lparr>callback = KonamiDone, delay = 2000, repeating = False\<rparr>,
               Suc (next_timer s) \<mapsto> \<lparr>callback = KonamiDone, delay = 2000, repeating = False\<rparr>),
             next_timer := Suc (Suc (next_timer s)), konamiIndex := 0\<rparr>"
    using assms(2) by (simp add: konami_full)
qed

theorem konami_detector_witness:
  "count_list (listeners example_state) (Document, KonamiKeydown) = 1
   \<and> konamiIndex example_state = 0
   \<and> str ''KeyB'' \<noteq> str ''KeyA''
   \<and> next_timer (run example_page (map KeyDown konamiCode) example_state)
       = Suc (next_timer example_state)
   \<and> run example_page (map KeyDown (take 9 konamiCode @ [str ''KeyB''])) example_state
       = example_state\<lparr>konamiIndex := 0\<rparr>
   \<and> next_timer (run example_page (map KeyDown (konamiCode @ konamiCode)) example_state)
       = Suc (Suc (next_timer example_state))"
proof -
  have ne: "str ''KeyB'' \<noteq> str ''KeyA''"
    by (simp add: str_def)
  note k = konami_detector [OF example_konami_registered example_konamiIndex,
      of example_page "str ''KeyB''"]
  from k ne show ?thesis
    by (simp add: example_konami_registered example_konamiIndex)
qed


section \<open>Scroll events and the navbar\<close>

lemma step_Scroll: "step pg (Scroll y) s = fold (run_listener pg (Scroll y)) (listeners s) s"
  by (simp add: step_def)

lemma parallax_scroll_style [simp]:
  "background (nodes (parallax_scroll pg y s) e) = background (nodes s e)"
  "boxShadow (nodes (parallax_scroll pg y s) e) = boxShadow (nodes s e)"
  by (simp_all add: parallax_scroll_def set_node_def Let_def split: option.splits)

lemma navbar_scroll_style:
  "q_navbar pg = Some navbar \<Longrightarrow>
     background (nodes (navbar_scroll pg y s) navbar) =
       (if jsgt y (num 100) then str ''rgba(255, 255, 255, 0.98)''
        else str ''rgba(255, 255, 255, 0.95)'')
   \<and> boxShadow (nodes (navbar_scroll pg y s) navbar) =
       (if jsgt y (num 100) then str ''0 2px 20px rgba(0, 0, 0, 0.1)'' else str ''none'')"
  by (simp add: navbar_scroll_def set_node_def)

lemma fold_scroll_style:
  assumes "q_navbar pg = Some navbar"
  shows "(if (Window, NavbarScroll) \<in> set ls
          then background (nodes (fold (run_listener pg (Scroll y)) ls s) navbar) =
                 (if jsgt y (num 100) then str ''rgba(255, 255, 255, 0.98)''
                  else str ''rgba(255, 255, 255, 0.95)'')
               \<and> boxShadow (nodes (fold (run_listener pg (Scroll y)) ls s) navbar) =
                 (if jsgt y (num 100) then str ''0 2px 20px rgba(0, 0, 0, 0.1)''
                  else str ''none'')
          else background (nodes (fold (run_listener pg (Scroll y)) ls s) navbar) =
                 background (nodes s navbar)
               \<and> boxShadow (nodes (fold (run_listener pg (Scroll y)) ls s) navbar) =
                 boxShadow (nodes s navbar))"
proof (induction ls arbitrary: s)
  case Nil
  then show ?case by simp
next
  case (Cons r ls)
  obtain t l where r: "r = (t, l)" by (cases r)
  show ?case
  proof (cases "r = (Window, NavbarScroll)")
    case True
    then show ?thesis
      using Cons.IH [of "navbar_scroll pg y s"] navbar_scroll_style [OF assms, of y s]
      by (cases "(Window, NavbarScroll) \<in> set ls") (simp_all add: run_listener_def)
  next
    case False
    then have "background (nodes (run_listener pg (Scroll y) r s) navbar) = background (nodes s navbar)
      \<and> boxShadow (nodes (run_listener pg (Scroll y) r s) navbar) = boxShadow (nodes s navbar)"
      by (cases l) (auto simp add: run_listener_def r)
    then show ?thesis
      using Cons.IH [of "run_listener pg (Scroll y) r s"] False by auto
  qed
qed

lemma boundary_101: "jsgt (num 101) (num 100)"
  by code_simp

lemma boundary_100: "\<not> jsgt (num 100) (num 100)"
  by code_simp


text \<open>
  C6. On a page with a navbar, once the scroll listener is registered: after every scroll
  event the navbar's background and shadow are a function of the scroll offset alone, the
  elevated pair when the offset is greater than 100 and the resting pair otherwise; at
  101 the navbar is elevated, at 100 it is resting.
\<close>

theorem navbar_style:
  assumes "(Window, NavbarScroll) \<in> set (listeners s)" and "q_navbar pg = Some navbar"
  shows "background (nodes (step pg (Scroll y) s) navbar) =
           (if jsgt y (num 100) then str ''rgba(255, 255, 255, 0.98)''
            else str ''rgba(255, 255, 255, 0.95)'')
       \<and> boxShadow (nodes (step pg (Scroll y) s) navbar) =
           (if jsgt y (num 100) then str ''0 2px 20px rgba(0, 0, 0, 0.1)'' else str ''none'')
       \<and> background (nodes (step pg (Scroll (num 101)) s) navbar) = str ''rgba(255, 255, 255, 0.98)''
       \<and> boxShadow (nodes (step pg (Scroll (num 101)) s) navbar) = str ''0 2px 20px rgba(0, 0, 0, 0.1)''
       \<and> background (nodes (step pg (Scroll (num 100)) s) navbar) = str ''rgba(255, 255, 255, 0.95)''
       \<and> boxShadow (nodes (step pg (Scroll (num 100)) s) navbar) = str ''none''"
  using assms fold_scroll_style [OF assms(2), of "listeners s" y s]
    fold_scroll_style [OF assms(2), of "listeners s" "num 101" s]
    fold_scroll_style [OF assms(2), of "listeners s" "num 100" s]
  by (simp add: step_Scroll boundary_101 boundary_100)

lemma example_navbar_registered: "(Window, NavbarScroll) \<in> set (listeners example_state)"
  by code_simp

lemma example_navbar: "q_navbar example_page = Some 3"
  by code_simp

theorem navbar_style_witness:
  "(Window, NavbarScroll) \<in> set (listeners example_state)
   \<and> q_navbar example_page = Some 3
   \<and> background (nodes (step example_page (Scroll (num 101)) example_state) 3) = str ''rgba(255, 255, 255, 0.98)''
   \<and> boxShadow (nodes (step example_page (Scroll (num 100)) example_state) 3) = str ''none''"
  using navbar_style [OF example_navbar_registered example_navbar, of NaN]
  by (simp add: example_navbar_registered example_navbar)


section \<open>Missing elements\<close>

text \<open>
  C3. The guard that the parallax, the typing effect and the anchor scroll have is missing
  for the hamburger, the menu and the navbar. On the small page without its hamburger the
  script throws a \<open>TypeError\<close> at line 5 and registers no listener at all, so that the
  Konami keys, fed afterwards, change nothing; on the small page without its navbar every
  scroll event throws a \<open>TypeError\<close> out of the navbar handler.
\<close>

theorem missing_element_throws:
  "uncaught (run_script (example_page\<lparr>q_hamburger := None\<rparr>) example_start) = [TypeError]
   \<and> listeners (run_script (example_page\<lparr>q_hamburger := None\<rparr>) example_start) = []
   \<and> run (example_page\<lparr>q_hamburger := None\<rparr>) (map KeyDown konamiCode)
         (run_script (example_page\<lparr>q_hamburger := None\<rparr>) example_start)
       = run_script (example_page\<lparr>q_hamburger := None\<rparr>) example_start
   \<and> uncaught (step (example_page\<lparr>q_navbar := None\<rparr>) (Scroll (num 150))
         (run_script (example_page\<lparr>q_navbar := None\<rparr>) example_start)) = [TypeError]"
proof (intro conjI)
  let ?pg = "example_page\<lparr>q_hamburger := None\<rparr>"
  show "uncaught (run_script ?pg example_start) = [TypeError]"
    by code_simp
  show none: "listeners (run_script ?pg example_start) = []"
    by code_simp
  have "step ?pg (KeyDown k) (run_script ?pg example_start) = run_script ?pg example_start"
    for k
    by (simp add: step_KeyDown none)
  then show "run ?pg (map KeyDown konamiCode) (run_script ?pg example_start)
      = run_script ?pg example_start"
    by (simp add: run_def konamiCode_def)
  show "uncaught (step (example_page\<lparr>q_navbar := None\<rparr>) (Scroll (num 150))
         (run_script (example_page\<lparr>q_navbar := None\<rparr>) example_start)) = [TypeError]"
    by code_simp
qed

section \<open>Clicks on anchors\<close>

text \<open>
  C7. A click on the link whose \<open>href\<close> is \<open>#\<close> (element 13 of the small page) prevents
  the default action and then throws: \<open>#\<close> is not a selector, and \<open>querySelector\<close>
  raises a \<open>SyntaxError\<close> before the guard on the target is reached. The link to
  \<open>#about\<close> (element 2) scrolls smoothly to the target's offset less 80.
\<close>

theorem anchor_click_bare_hash_throws:
  "href (nodes example_state 13) = str ''#''
   \<and> 13 \<in> set (q_anchors example_page)
   \<and> uncaught example_state = []
   \<and> uncaught (step example_page (Click 13) example_state) = [SyntaxError]
   \<and> effects (step example_page (Click 13) example_state) = [PreventDefault]
   \<and> effects (step example_page (Click 2) example_state) = [PreventDefault, ScrollSmooth 560]"
  by (intro conjI) code_simp+

section \<open>The lightbox\<close>

lemma step_Click: "step pg (Click e) s = fold (run_listener pg (Click e)) (listeners s) s"
  by (simp add: step_def)

lemma click_other_frame:
  assumes "r \<noteq> (Element e, GalleryClick)" and "r \<noteq> (Element e, ModalClick)"
  shows "body_children (run_listener pg (Click e) r s) = body_children s
       \<and> next_elem (run_listener pg (Click e) r s) = next_elem s
       \<and> listeners (run_listener pg (Click e) r s) = listeners s"
proof -
  obtain t l where r: "r = (t, l)" by (cases r)
  show ?thesis using assms unfolding r
    by (cases l)
      (auto simp add: run_listener_def hamburger_click_def navlink_click_def anchor_click_def
        set_node_def throw_def Let_def split: option.splits sum.splits)
qed

lemma gallery_click_frame:
  "body_children (gallery_click img s) = body_children s @ [next_elem s]
   \<and> next_elem (gallery_click img s) = Suc (Suc (next_elem s))
   \<and> listeners (gallery_click img s) = listeners s @ [(Element (next_elem s), ModalClick)]"
  by (simp add: gallery_click_def createElement_def set_node_def addEventListener_def Let_def)

lemma fold_click_others:
  assumes "(Element e, GalleryClick) \<notin> set ls" and "(Element e, ModalClick) \<notin> set ls"
  shows "body_children (fold (run_listener pg (Click e)) ls s) = body_children s
       \<and> next_elem (fold (run_listener pg (Click e)) ls s) = next_elem s
       \<and> listeners (fold (run_listener pg (Click e)) ls s) = listeners s"
  using assms
proof (induction ls arbitrary: s)
  case Nil
  then show ?case by simp
next
  case (Cons r ls)
  then have "r \<noteq> (Element e, GalleryClick)" "r \<noteq> (Element e, ModalClick)"
    by auto
  from click_other_frame [OF this, of pg s] Cons.IH [of "run_listener pg (Click e) r s"] Cons.prems
  show ?case by simp
qed

lemma fold_click_gallery:
  assumes "count_list ls (Element img, GalleryClick) = 1"
    and "(Element img, ModalClick) \<notin> set ls"
  shows "body_children (fold (run_listener pg (Click img)) ls s) = body_children s @ [next_elem s]
       \<and> next_elem (fold (run_listener pg (Click img)) ls s) = Suc (Suc (next_elem s))
       \<and> listeners (fold (run_listener pg (Click img)) ls s) =
           listeners s @ [(Element (next_elem s), ModalClick)]"
  using assms
proof (induction ls arbitrary: s)
  case Nil
  then show ?case by simp
next
  case (Cons r ls)
  show ?case
  proof (cases "r = (Element img, GalleryClick)")
    case True
    with Cons.prems have "count_list ls (Element img, GalleryClick) = 0"
      by simp
    then have none: "(Element img, GalleryClick) \<notin> set ls"
      by (simp add: count_list_0_iff)
    have run: "run_listener pg (Click img) r s = gallery_click img s"
      using True by (simp add: run_listener_def)
    from fold_click_others [OF none, of pg "gallery_click img s"] Cons.prems(2)
      gallery_click_frame [of img s]
    show ?thesis by (simp add: run)
  next
    case False
    with Cons.prems have one: "count_list ls (Element img, GalleryClick) = 1"
      and no: "(Element img, ModalClick) \<notin> set ls" and r: "r \<noteq> (Element img, ModalClick)"
      by auto
    from click_other_frame [OF False r, of pg s]
      Cons.IH [OF one no, of "run_listener pg (Click img) r s"]
    show ?thesis by simp
  qed
qed

lemma fold_click_unheard:
  "\<forall>r \<in> set ls. fst r \<noteq> Element e \<Longrightarrow> fold (run_listener pg (Click e)) ls s = s"
  by (induction ls arbitrary: s) (simp_all add: run_listener_def)

text \<open>
  C8. In a state where the gallery image has its one click listener and the element
  about to be created is new (no child of \<open>body\<close> yet, no listener on it): a click on the
  image appends exactly one element, the overlay, to \<open>body\<close>; a click on that overlay
  removes it again, without an error, and \<open>body\<close> has the children it had before.
\<close>

theorem lightbox_round_trip:
  assumes "count_list (listeners s) (Element img, GalleryClick) = 1"
    and "(Element img, ModalClick) \<notin> set (listeners s)"
    and "next_elem s \<notin> set (body_children s)"
    and "\<forall>r \<in> set (listeners s). fst r \<noteq> Element (next_elem s)"
  shows "body_children (step pg (Click img) s) = body_children s @ [next_elem s]
       \<and> length (body_children (step pg (Click img) s)) = Suc (length (body_children s))
       \<and> body_children (step pg (Click (next_elem s)) (step pg (Click img) s)) = body_children s
       \<and> uncaught (step pg (Click (next_elem s)) (step pg (Click img) s)) =
           uncaught (step pg (Click img) s)"
proof -
  let ?m = "next_elem s"
  let ?s1 = "step pg (Click img) s"
  have opened: "body_children ?s1 = body_children s @ [?m]"
    and ls1: "listeners ?s1 = listeners s @ [(Element ?m, ModalClick)]"
    using fold_click_gallery [OF assms(1,2), of pg s] by (simp_all add: step_Click)
  have "step pg (Click ?m) ?s1 = fold (run_listener pg (Click ?m)) (listeners ?s1) ?s1"
    by (rule step_Click)
  also have "\<dots> = fold (run_listener pg (Click ?m)) (listeners s @ [(Element ?m, ModalClick)]) ?s1"
    by (simp only: ls1)
  also have "\<dots> = run_listener pg (Click ?m) (Element ?m, ModalClick)
      (fold (run_listener pg (Click ?m)) (listeners s) ?s1)"
    by simp
  also have "\<dots> = modal_click ?m ?s1"
    using assms(4) by (simp add: fold_click_unheard run_listener_def)
  finally have "step pg (Click ?m) ?s1 = modal_click ?m ?s1" .
  moreover have "body_children (modal_click ?m ?s1) = body_children s"
    using assms(3) by (simp add: modal_click_def opened remove1_append)
  moreover have "uncaught (modal_click ?m ?s1) = uncaught ?s1"
    by (simp add: modal_click_def opened)
  ultimately show ?thesis using opened by simp
qed

lemma example_gallery_registered: "count_list (listeners example_state) (Element 11, GalleryClick) = 1" by code_simp
lemma example_no_modal: "(Element 11, ModalClick) \<notin> set (listeners example_state)" by code_simp
lemma example_fresh_child: "next_elem example_state \<notin> set (body_children example_state)" by code_simp
lemma example_fresh_target: "\<forall>r \<in> set (listeners example_state). fst r \<noteq> Element (next_elem example_state)" by code_simp
lemma example_next_elem: "next_elem example_state = 15" by code_simp
lemma example_body: "body_children example_state = [3, 4, 6, 7, 10, 12, 13]" by code_simp

theorem lightbox_round_trip_witness:
  "count_list (listeners example_state) (Element 11, GalleryClick) = 1
   \<and> (Element 11, ModalClick) \<notin> set (listeners example_state)
   \<and> next_elem example_state \<notin> set (body_children example_state)
   \<and> body_children (step example_page (Click 11) example_state) = [3, 4, 6, 7, 10, 12, 13, 15]
   \<and> body_children (step example_page (Click 15) (step example_page (Click 11) example_state))
       = [3, 4, 6, 7, 10, 12, 13]"
  using lightbox_round_trip [OF example_gallery_registered example_no_modal example_fresh_child
      example_fresh_target, of example_page]
    example_gallery_registered example_no_modal example_fresh_child example_fresh_target
  by (simp add: example_next_elem example_body)


section \<open>Runs\<close>

lemma run_Nil [simp]: "run pg [] s = s"
  by (simp add: run_def)

lemma run_Cons [simp]: "run pg (ev # evs) s = run pg evs (step pg ev s)"
  by (simp add: run_def)

lemma run_append: "run pg (xs @ ys) s = run pg ys (run pg xs s)"
  by (simp add: run_def)


section \<open>Reveal is one-shot\<close>

lemma reveal_entry_opacity:
  "opacity (nodes s e) = str ''1'' \<Longrightarrow> opacity (nodes (reveal_entry en s) e) = str ''1''"
  by (simp add: reveal_entry_def set_node_def)

lemma reveal_entry_transform:
  "transform (nodes s e) = str ''translateY(0)'' \<Longrightarrow>
     transform (nodes (reveal_entry en s) e) = str ''translateY(0)''"
  by (simp add: reveal_entry_def set_node_def)

lemma observer_callback_opacity:
  "opacity (nodes s e) = str ''1'' \<Longrightarrow> opacity (nodes (observer_callback ens s) e) = str ''1''"
  unfolding observer_callback_def
  by (induction ens arbitrary: s) (simp_all add: reveal_entry_opacity)

lemma observer_callback_transform:
  "transform (nodes s e) = str ''translateY(0)'' \<Longrightarrow>
     transform (nodes (observer_callback ens s) e) = str ''translateY(0)''"
  unfolding observer_callback_def
  by (induction ens arbitrary: s) (simp_all add: reveal_entry_transform)

lemma animateCounter_nodes [simp]: "nodes (animateCounter el s) = nodes s"
  by (simp add: animateCounter_def setInterval_def set_timer_def Let_def)

lemma stats_entry_nodes [simp]: "nodes (stats_entry en s) = nodes s"
  by (simp add: stats_entry_def Let_def)

lemma statsObserver_callback_nodes [simp]: "nodes (statsObserver_callback ens s) = nodes s"
  unfolding statsObserver_callback_def
  by (induction ens arbitrary: s) simp_all

lemma scroll_listener_opacity:
  "opacity (nodes (run_listener pg (Scroll y) r s) e) = opacity (nodes s e)"
proof -
  obtain t l where r: "r = (t, l)" by (cases r)
  show ?thesis unfolding r
    by (cases l)
      (auto simp add: run_listener_def navbar_scroll_def parallax_scroll_def set_node_def
        throw_def Let_def split: option.splits)
qed

lemma scroll_listener_transform:
  "q_hero pg \<noteq> Some e \<Longrightarrow>
     transform (nodes (run_listener pg (Scroll y) r s) e) = transform (nodes s e)"
proof -
  assume hero: "q_hero pg \<noteq> Some e"
  obtain t l where r: "r = (t, l)" by (cases r)
  show ?thesis using hero unfolding r
    by (cases l)
      (auto simp add: run_listener_def navbar_scroll_def parallax_scroll_def set_node_def
        throw_def Let_def split: option.splits)
qed

lemma scroll_opacity:
  "opacity (nodes (fold (run_listener pg (Scroll y)) ls s) e) = opacity (nodes s e)"
  by (induction ls arbitrary: s) (simp_all add: scroll_listener_opacity)

lemma scroll_transform:
  "q_hero pg \<noteq> Some e \<Longrightarrow>
     transform (nodes (fold (run_listener pg (Scroll y)) ls s) e) = transform (nodes s e)"
  by (induction ls arbitrary: s) (simp_all add: scroll_listener_transform)

lemma step_opacity:
  assumes "scroll_or_intersection ev" and "opacity (nodes s e) = str ''1''"
  shows "opacity (nodes (step pg ev s) e) = str ''1''"
  using assms
  by (cases ev) (simp_all add: step_def scroll_opacity observer_callback_opacity)

lemma step_transform:
  assumes "scroll_or_intersection ev" and "q_hero pg \<noteq> Some e"
    and "transform (nodes s e) = str ''translateY(0)''"
  shows "transform (nodes (step pg ev s) e) = str ''translateY(0)''"
  using assms
  by (cases ev) (simp_all add: step_def scroll_transform observer_callback_transform)

lemma run_opacity:
  "list_all scroll_or_intersection evs \<Longrightarrow> opacity (nodes s e) = str ''1'' \<Longrightarrow>
     opacity (nodes (run pg evs s) e) = str ''1''"
  by (induction evs arbitrary: s) (simp_all add: step_opacity)

lemma run_transform:
  "list_all scroll_or_intersection evs \<Longrightarrow> q_hero pg \<noteq> Some e \<Longrightarrow>
     transform (nodes s e) = str ''translateY(0)'' \<Longrightarrow>
     transform (nodes (run pg evs s) e) = str ''translateY(0)''"
  by (induction evs arbitrary: s) (simp_all add: step_transform)

text \<open>
  C5, as amended. Over every sequence of scroll and intersection events, an element whose
  opacity is \<open>1\<close> keeps it, and an element revealed at \<open>translateY(0)\<close> keeps this
  transform unless it is the page's hero element.
\<close>

theorem reveal_one_shot:
  assumes "list_all scroll_or_intersection evs"
    and "opacity (nodes s e) = str ''1''"
    and "transform (nodes s e) = str ''translateY(0)''"
  shows "opacity (nodes (run pg evs s) e) = str ''1''
       \<and> (q_hero pg \<noteq> Some e \<longrightarrow> transform (nodes (run pg evs s) e) = str ''translateY(0)'')"
  using assms by (simp add: run_opacity run_transform)

lemma example_revealed:
  "opacity (nodes (run example_page [Intersection [(6, True)]] example_loaded) 6) = str ''1''"
  "transform (nodes (run example_page [Intersection [(6, True)]] example_loaded) 6) = str ''translateY(0)''"
  "opacity (nodes example_loaded 6) = str ''0''"
  "transform (nodes example_loaded 6) = str ''translateY(30px)''"
  by code_simp+

lemma example_hero_other: "q_hero example_page \<noteq> Some 6"
  by code_simp

theorem reveal_one_shot_witness:
  "list_all scroll_or_intersection [Scroll (num 60), Intersection [(6, False)]]
   \<and> opacity (nodes (run example_page [Intersection [(6, True)]] example_loaded) 6) = str ''1''
   \<and> transform (nodes (run example_page [Intersection [(6, True)]] example_loaded) 6) = str ''translateY(0)''
   \<and> q_hero example_page \<noteq> Some 6
   \<and> opacity (nodes (run example_page [Scroll (num 60), Intersection [(6, False)]]
         (run example_page [Intersection [(6, True)]] example_loaded)) 6) = str ''1''
   \<and> transform (nodes (run example_page [Scroll (num 60), Intersection [(6, False)]]
         (run example_page [Intersection [(6, True)]] example_loaded)) 6) = str ''translateY(0)''"
proof -
  have evs: "list_all scroll_or_intersection [Scroll (num 60), Intersection [(6, False)]]"
    by simp
  from reveal_one_shot [OF evs example_revealed(1) example_revealed(2), of example_page] evs example_hero_other
  show ?thesis by (simp only: example_revealed simp_thms)
qed

text \<open>
  C5 as stated fails for an element that is both revealed and the hero (classes \<open>hero\<close> and
  \<open>about-grid\<close> on element 6): once it is revealed, the scroll event at offset 60 has the
  parallax handler write the downward offset \<open>translateY(30px)\<close> again.
\<close>

theorem reveal_offset_counterexample:
  "6 \<in> set (q_animated overlap_page)
   \<and> opacity (nodes (run overlap_page [DOMContentLoaded, Intersection [(6, True)]]
         (run_script overlap_page example_start)) 6) = str ''1''
   \<and> transform (nodes (run overlap_page [DOMContentLoaded, Intersection [(6, True)]]
         (run_script overlap_page example_start)) 6) = str ''translateY(0)''
   \<and> transform (nodes (run overlap_page [Scroll (num 60)]
         (run overlap_page [DOMContentLoaded, Intersection [(6, True)]]
           (run_script overlap_page example_start))) 6) = str ''translateY(30px)''"
  by (intro conjI) code_simp+


section \<open>Counter intervals\<close>

lemma running_0 [simp]: "running inc 0 = num 0"
  by (simp add: running_def)

lemma running_Suc [simp]: "running inc (Suc k) = jsadd (running inc k) inc"
  by (simp add: running_def)

lemma funpow_add_first:
  "((\<lambda>c. jsadd c inc) ^^ Suc m) x = ((\<lambda>c. jsadd c inc) ^^ m) (jsadd x inc)"
  by (simp only: funpow_Suc_right comp_apply)

lemma ticks_to_reach_first:
  "ticks_to_reach inc n cur fuel = Some k \<Longrightarrow>
     1 \<le> k \<and> jsge (((\<lambda>c. jsadd c inc) ^^ k) cur) n
     \<and> (\<forall>i. 1 \<le> i \<and> i < k \<longrightarrow> \<not> jsge (((\<lambda>c. jsadd c inc) ^^ i) cur) n)"
proof (induction fuel arbitrary: cur k)
  case 0
  then show ?case by simp
next
  case (Suc fuel)
  show ?case
  proof (cases "jsge (jsadd cur inc) n")
    case True
    with Suc.prems have "k = 1" by (simp add: Let_def)
    with True show ?thesis by simp
  next
    case False
    with Suc.prems obtain k' where k': "ticks_to_reach inc n (jsadd cur inc) fuel = Some k'"
      and k: "k = Suc k'"
      by (auto simp add: Let_def)
    from Suc.IH [OF k'] have ih: "1 \<le> k'"
      "jsge (((\<lambda>c. jsadd c inc) ^^ k') (jsadd cur inc)) n"
      "\<And>i. 1 \<le> i \<Longrightarrow> i < k' \<Longrightarrow> \<not> jsge (((\<lambda>c. jsadd c inc) ^^ i) (jsadd cur inc)) n"
      by simp_all
    have "\<not> jsge (((\<lambda>c. jsadd c inc) ^^ i) cur) n" if "1 \<le> i" "i < k" for i
    proof (cases i)
      case 0
      with that show ?thesis by simp
    next
      case (Suc i')
      show ?thesis
      proof (cases "i' = 0")
        case True
        with Suc False show ?thesis by simp
      next
        case False
        with that Suc k have "1 \<le> i'" "i' < k'" by simp_all
        from ih(3) [OF this] show ?thesis
          unfolding Suc by (simp only: funpow_add_first simp_thms)
      qed
    qed
    moreover have "jsge (((\<lambda>c. jsadd c inc) ^^ k) cur) n"
      unfolding k using ih(2) by (simp only: funpow_add_first simp_thms)
    ultimately show ?thesis using ih(1) by (simp add: k)
  qed
qed

lemma fire_counter:
  "timers s tid = Some tm \<Longrightarrow> callback tm = CounterTick c \<Longrightarrow>
     step pg (TimerFires tid) s = counter_tick tid tm c s"
  by (simp add: step_def fire_timer_def)

lemma fire_cleared: "timers s tid = None \<Longrightarrow> step pg (TimerFires tid) s = s"
  by (simp add: step_def fire_timer_def)

lemma fire_cleared_many:
  "timers s tid = None \<Longrightarrow> run pg (replicate m (TimerFires tid)) s = s"
  by (induction m) (simp_all add: fire_cleared)

lemma tick_continue:
  assumes "timers s tid = Some \<lparr>callback = CounterTick c, delay = d, repeating = r\<rparr>"
    and "\<not> jsge (jsadd (current c) (increment c)) (numericTarget c)"
  shows "timers (step pg (TimerFires tid) s) tid =
           Some \<lparr>callback = CounterTick (c\<lparr>current := jsadd (current c) (increment c)\<rparr>),
                 delay = d, repeating = r\<rparr>
       \<and> textContent (nodes (step pg (TimerFires tid) s) (element c)) =
           ToString (Math_floor (jsadd (current c) (increment c)))
             @ (if includes_plus (target c) then str ''+'' else [])"
  using assms
  by (simp add: fire_counter [where c = c] counter_tick_def set_node_def Let_def)

lemma tick_finish:
  assumes "timers s tid = Some \<lparr>callback = CounterTick c, delay = d, repeating = r\<rparr>"
    and "jsge (jsadd (current c) (increment c)) (numericTarget c)"
  shows "timers (step pg (TimerFires tid) s) tid = None
       \<and> textContent (nodes (step pg (TimerFires tid) s) (element c)) = target c"
  using assms
  by (simp add: fire_counter [where c = c] counter_tick_def set_node_def clearInterval_def
      Let_def)

lemma replicate_snoc_run:
  "run pg (replicate (Suc j) ev) s = step pg ev (run pg (replicate j ev) s)"
  by (simp only: replicate_Suc replicate_append_same [symmetric] run_def fold_append fold_simps
      comp_apply id_apply)

lemma ticks_before_reach:
  assumes "timers s0 tid = Some \<lparr>callback = CounterTick
             \<lparr>element = el, target = tgt, numericTarget = n, increment = inc, current = num 0\<rparr>,
             delay = 30, repeating = True\<rparr>"
    and "\<forall>i. 1 \<le> i \<and> i \<le> j \<longrightarrow> \<not> jsge (running inc i) n"
  shows "timers (run pg (replicate j (TimerFires tid)) s0) tid =
           Some \<lparr>callback = CounterTick \<lparr>element = el, target = tgt, numericTarget = n,
                   increment = inc, current = running inc j\<rparr>, delay = 30, repeating = True\<rparr>
       \<and> (1 \<le> j \<longrightarrow> textContent (nodes (run pg (replicate j (TimerFires tid)) s0) el) =
             ToString (Math_floor (running inc j)) @ (if includes_plus tgt then str ''+'' else []))"
  using assms(2)
proof (induction j)
  case 0
  then show ?case using assms(1) by simp
next
  case (Suc j)
  then have "\<forall>i. 1 \<le> i \<and> i \<le> j \<longrightarrow> \<not> jsge (running inc i) n"
    and no: "\<not> jsge (jsadd (running inc j) inc) n"
    by auto
  with Suc.IH have tm: "timers (run pg (replicate j (TimerFires tid)) s0) tid =
      Some \<lparr>callback = CounterTick \<lparr>element = el, target = tgt, numericTarget = n,
        increment = inc, current = running inc j\<rparr>, delay = 30, repeating = True\<rparr>"
    by simp
  from tick_continue [OF tm, of pg] no show ?case
    by (simp add: replicate_snoc_run del: replicate.simps)
qed

lemma tick_reach:
  assumes "timers s0 tid = Some \<lparr>callback = CounterTick
             \<lparr>element = el, target = tgt, numericTarget = n, increment = inc, current = num 0\<rparr>,
             delay = 30, repeating = True\<rparr>"
    and "1 \<le> k" and "jsge (running inc k) n"
    and "\<forall>i. 1 \<le> i \<and> i < k \<longrightarrow> \<not> jsge (running inc i) n"
  shows "timers (run pg (replicate k (TimerFires tid)) s0) tid = None
       \<and> textContent (nodes (run pg (replicate k (TimerFires tid)) s0) el) = tgt"
proof -
  from assms(2) obtain j where k: "k = Suc j" by (cases k) simp_all
  with assms(4) have "\<forall>i. 1 \<le> i \<and> i \<le> j \<longrightarrow> \<not> jsge (running inc i) n"
    by simp
  from ticks_before_reach [OF assms(1) this, of pg]
  have tm: "timers (run pg (replicate j (TimerFires tid)) s0) tid =
      Some \<lparr>callback = CounterTick \<lparr>element = el, target = tgt, numericTarget = n,
        increment = inc, current = running inc j\<rparr>, delay = 30, repeating = True\<rparr>"
    by simp
  from tick_finish [OF tm, of pg] assms(3) show ?thesis
    by (simp add: k replicate_snoc_run del: replicate.simps)
qed

lemma visible_once:
  assumes "el \<in> set (stats_observed s)"
  shows "step pg (StatsIntersection [(el, True)]) s =
           (animateCounter el s)\<lparr>stats_observed := removeAll el (stats_observed s)\<rparr>"
  using assms
  by (simp add: step_def statsObserver_callback_def stats_entry_def Let_def animateCounter_def
      setInterval_def set_timer_def)

lemma animateCounter_timer:
  assumes "textContent (nodes s el) \<noteq> INFINITY_SIGN"
  shows "timers (animateCounter el s) (next_timer s) =
           Some \<lparr>callback = CounterTick
             \<lparr>element = el, target = textContent (nodes s el),
              numericTarget = parseInt (replace_plus (textContent (nodes s el))),
              increment = jsdiv (parseInt (replace_plus (textContent (nodes s el)))) (num 50),
              current = num 0\<rparr>,
             delay = 30, repeating = True\<rparr>"
  using assms by (simp add: animateCounter_def setInterval_def set_timer_def Let_def)

lemma counter_started:
  assumes "el \<in> set (stats_observed s)"
    and "textContent (nodes s el) \<noteq> INFINITY_SIGN"
    and "tgt = textContent (nodes s el)"
    and "n = parseInt (replace_plus tgt)"
    and "inc = jsdiv n (num 50)"
    and "tid = next_timer s"
    and "s0 = step pg (StatsIntersection [(el, True)]) s"
  shows "timers s0 tid = Some \<lparr>callback = CounterTick
             \<lparr>element = el, target = tgt, numericTarget = n, increment = inc, current = num 0\<rparr>,
             delay = 30, repeating = True\<rparr>"
proof -
  have "s0 = (animateCounter el s)\<lparr>stats_observed := removeAll el (stats_observed s)\<rparr>"
    using assms(1,7) by (simp add: visible_once)
  then show ?thesis
    using animateCounter_timer [OF assms(2)] assms(3-6) by simp
qed

text \<open>
  C1. A counter whose text is not the sentinel and that its observer reports as
  intersecting gets one interval of 30 ms, with the running value 0 and the increment
  \<open>parseInt(text without its first +) / 50\<close>. As long as no tick has reached the target, the
  text after the \<open>j\<close>-th tick is the floor of the running value, followed by \<open>+\<close> when the
  original text has one, and the interval is still set. On the first tick \<open>k\<close> at which the
  running value is at least the target, the text is the original text and the interval is
  cleared; later ticks of this interval change nothing.
\<close>

theorem counter_animation:
  assumes "el \<in> set (stats_observed s)"
    and "textContent (nodes s el) \<noteq> INFINITY_SIGN"
    and "tgt = textContent (nodes s el)"
    and "n = parseInt (replace_plus tgt)"
    and "inc = jsdiv n (num 50)"
    and "tid = next_timer s"
    and "s0 = step pg (StatsIntersection [(el, True)]) s"
  shows "timers s0 tid = Some \<lparr>callback = CounterTick
             \<lparr>element = el, target = tgt, numericTarget = n, increment = inc, current = num 0\<rparr>,
             delay = 30, repeating = True\<rparr>
       \<and> (\<forall>j. 1 \<le> j \<and> (\<forall>i. 1 \<le> i \<and> i \<le> j \<longrightarrow> \<not> jsge (running inc i) n) \<longrightarrow>
             textContent (nodes (run pg (replicate j (TimerFires tid)) s0) el) =
               ToString (Math_floor (running inc j)) @ (if includes_plus tgt then str ''+'' else [])
             \<and> timers (run pg (replicate j (TimerFires tid)) s0) tid \<noteq> None)
       \<and> (\<forall>fuel k. ticks_to_reach inc n (num 0) fuel = Some k \<longrightarrow>
             1 \<le> k \<and> jsge (running inc k) n
             \<and> (\<forall>i. 1 \<le> i \<and> i < k \<longrightarrow> \<not> jsge (running inc i) n)
             \<and> textContent (nodes (run pg (replicate k (TimerFires tid)) s0) el) = tgt
             \<and> timers (run pg (replicate k (TimerFires tid)) s0) tid = None
             \<and> (\<forall>m. run pg (replicate (k + m) (TimerFires tid)) s0 =
                    run pg (replicate k (TimerFires tid)) s0))"
proof -
  note tm = counter_started [OF assms]
  have before: "textContent (nodes (run pg (replicate j (TimerFires tid)) s0) el) =
               ToString (Math_floor (running inc j)) @ (if includes_plus tgt then str ''+'' else [])
             \<and> timers (run pg (replicate j (TimerFires tid)) s0) tid \<noteq> None"
    if "1 \<le> j" "\<forall>i. 1 \<le> i \<and> i \<le> j \<longrightarrow> \<not> jsge (running inc i) n" for j
    using ticks_before_reach [OF tm that(2), of pg] that(1) by simp
  have reach: "1 \<le> k \<and> jsge (running inc k) n
             \<and> (\<forall>i. 1 \<le> i \<and> i < k \<longrightarrow> \<not> jsge (running inc i) n)
             \<and> textContent (nodes (run pg (replicate k (TimerFires tid)) s0) el) = tgt
             \<and> timers (run pg (replicate k (TimerFires tid)) s0) tid = None
             \<and> (\<forall>m. run pg (replicate (k + m) (TimerFires tid)) s0 =
                    run pg (replicate k (TimerFires tid)) s0)"
    if "ticks_to_reach inc n (num 0) fuel = Some k" for fuel k
  proof -
    from ticks_to_reach_first [OF that] have first: "1 \<le> k" "jsge (running inc k) n"
      "\<forall>i. 1 \<le> i \<and> i < k \<longrightarrow> \<not> jsge (running inc i) n"
      by (simp_all add: running_def)
    from tick_reach [OF tm first, of pg] have fin:
      "timers (run pg (replicate k (TimerFires tid)) s0) tid = None"
      "textContent (nodes (run pg (replicate k (TimerFires tid)) s0) el) = tgt"
      by simp_all
    have "run pg (replicate (k + m) (TimerFires tid)) s0 =
        run pg (replicate k (TimerFires tid)) s0" for m
      using fire_cleared_many [OF fin(1), of pg m] by (simp add: replicate_add run_append)
    with first fin show ?thesis by simp
  qed
  from tm before reach show ?thesis by blast
qed

lemma example_counter_observed: "8 \<in> set (stats_observed example_loaded)"
  by code_simp

lemma example_counter_text: "textContent (nodes example_loaded 8) = str ''120+''"
  by code_simp

lemma example_counter_finite: "str ''120+'' \<noteq> INFINITY_SIGN"
  by code_simp

lemma example_counter_parse: "parseInt (replace_plus (str ''120+'')) = num 120"
  by code_simp

lemma example_counter_timer: "next_timer example_loaded = 1"
  by code_simp

lemma example_counter_reach:
  "ticks_to_reach (jsdiv (num 120) (num 50)) (num 120) (num 0) 60 = Some 50"
  by code_simp

lemma example_counter_three:
  "\<not> jsge (running (jsdiv (num 120) (num 50)) 1) (num 120)"
  "\<not> jsge (running (jsdiv (num 120) (num 50)) 2) (num 120)"
  "\<not> jsge (running (jsdiv (num 120) (num 50)) 3) (num 120)"
  "ToString (Math_floor (running (jsdiv (num 120) (num 50)) 3)) = str ''7''"
  "includes_plus (str ''120+'')"
  by code_simp+

theorem counter_animation_witness:
  "8 \<in> set (stats_observed example_loaded)
   \<and> textContent (nodes example_loaded 8) \<noteq> INFINITY_SIGN
   \<and> ticks_to_reach (jsdiv (num 120) (num 50)) (num 120) (num 0) 60 = Some 50
   \<and> textContent (nodes (run example_page (replicate 3 (TimerFires 1))
         (step example_page (StatsIntersection [(8, True)]) example_loaded)) 8) = str ''7+''
   \<and> textContent (nodes (run example_page (replicate 50 (TimerFires 1))
         (step example_page (StatsIntersection [(8, True)]) example_loaded)) 8) = str ''120+''
   \<and> timers (run example_page (replicate 50 (TimerFires 1))
         (step example_page (StatsIntersection [(8, True)]) example_loaded)) 1 = None"
proof -
  have finite: "textContent (nodes example_loaded 8) \<noteq> INFINITY_SIGN"
    by (simp add: example_counter_text example_counter_finite)
  have three: "\<forall>i. 1 \<le> i \<and> i \<le> 3 \<longrightarrow>
      \<not> jsge (running (jsdiv (num 120) (num 50)) i) (num 120)"
  proof (intro allI impI)
    fix i :: nat
    assume "1 \<le> i \<and> i \<le> 3"
    then have "i = 1 \<or> i = 2 \<or> i = 3" by arith
    with example_counter_three(1-3)
    show "\<not> jsge (running (jsdiv (num 120) (num 50)) i) (num 120)"
      by blast
  qed
  note c = counter_animation [OF example_counter_observed finite
      example_counter_text [symmetric] example_counter_parse [symmetric] refl
      example_counter_timer [symmetric] refl, of example_page]
  from c have "textContent (nodes (run example_page (replicate 3 (TimerFires 1))
         (step example_page (StatsIntersection [(8, True)]) example_loaded)) 8) =
       ToString (Math_floor (running (jsdiv (num 120) (num 50)) 3))
         @ (if includes_plus (str ''120+'') then str ''+'' else [])"
    using three by simp
  moreover from c example_counter_reach
  have "textContent (nodes (run example_page (replicate 50 (TimerFires 1))
         (step example_page (StatsIntersection [(8, True)]) example_loaded)) 8) = str ''120+''
    \<and> timers (run example_page (replicate 50 (TimerFires 1))
         (step example_page (StatsIntersection [(8, True)]) example_loaded)) 1 = None"
    by blast
  moreover have "str ''7'' @ str ''+'' = str ''7+''"
    by (simp add: str_def)
  ultimately show ?thesis
    using example_counter_observed finite example_counter_reach
    by (simp add: example_counter_three)
qed


section \<open>The infinite sentinel\<close>

lemma step_DOMContentLoaded:
  "step pg DOMContentLoaded s = fold (run_listener pg DOMContentLoaded) (listeners s) s"
  by (simp add: step_def)

lemma init_animated_counters [simp]:
  "textContent (nodes (init_animated el s) e) = textContent (nodes s e)"
  "stats_observed (init_animated el s) = stats_observed s"
  "timers (init_animated el s) = timers s"
  by (simp_all add: init_animated_def set_node_def Let_def)

lemma fold_init_animated_counters [simp]:
  "textContent (nodes (fold init_animated els s) e) = textContent (nodes s e)"
  "stats_observed (fold init_animated els s) = stats_observed s"
  "timers (fold init_animated els s) = timers s"
  by (induction els arbitrary: s) simp_all

lemma observe_stat_counters:
  "textContent (nodes (observe_stat st s) e) = textContent (nodes s e)"
  "timers (observe_stat st s) = timers s"
  "textContent (nodes s e) = INFINITY_SIGN \<Longrightarrow> e \<notin> set (stats_observed s) \<Longrightarrow>
     e \<notin> set (stats_observed (observe_stat st s))"
  by (auto simp add: observe_stat_def)

lemma fold_observe_stat_counters:
  "textContent (nodes (fold observe_stat sts s) e) = textContent (nodes s e)"
  "timers (fold observe_stat sts s) = timers s"
  "textContent (nodes s e) = INFINITY_SIGN \<Longrightarrow> e \<notin> set (stats_observed s) \<Longrightarrow>
     e \<notin> set (stats_observed (fold observe_stat sts s))"
  by (induction sts arbitrary: s) (simp_all add: observe_stat_counters)

lemma content_loaded_counters:
  "textContent (nodes (content_loaded pg s) e) = textContent (nodes s e)"
  "timers (content_loaded pg s) = timers s"
  "textContent (nodes s e) = INFINITY_SIGN \<Longrightarrow> e \<notin> set (stats_observed s) \<Longrightarrow>
     e \<notin> set (stats_observed (content_loaded pg s))"
  by (simp_all add: content_loaded_def fold_observe_stat_counters)

lemma loaded_listener_counters:
  "textContent (nodes (run_listener pg DOMContentLoaded r s) e) = textContent (nodes s e)"
  "timers (run_listener pg DOMContentLoaded r s) = timers s"
  "textContent (nodes s e) = INFINITY_SIGN \<Longrightarrow> e \<notin> set (stats_observed s) \<Longrightarrow>
     e \<notin> set (stats_observed (run_listener pg DOMContentLoaded r s))"
  by (simp_all add: run_listener_def content_loaded_counters)

lemma fold_loaded_counters:
  "textContent (nodes (fold (run_listener pg DOMContentLoaded) ls s) e) = textContent (nodes s e)"
  "timers (fold (run_listener pg DOMContentLoaded) ls s) = timers s"
  "textContent (nodes s e) = INFINITY_SIGN \<Longrightarrow> e \<notin> set (stats_observed s) \<Longrightarrow>
     e \<notin> set (stats_observed (fold (run_listener pg DOMContentLoaded) ls s))"
  by (induction ls arbitrary: s) (simp_all add: loaded_listener_counters)

lemma reveal_entry_counters [simp]:
  "textContent (nodes (reveal_entry en s) e) = textContent (nodes s e)"
  "stats_observed (reveal_entry en s) = stats_observed s"
  "timers (reveal_entry en s) = timers s"
  by (simp_all add: reveal_entry_def set_node_def)

lemma observer_callback_counters [simp]:
  "textContent (nodes (observer_callback ens s) e) = textContent (nodes s e)"
  "stats_observed (observer_callback ens s) = stats_observed s"
  "timers (observer_callback ens s) = timers s"
  unfolding observer_callback_def
  by (induction ens arbitrary: s) simp_all

text \<open>
  The invariant: the text is the sentinel, the element is not observed, and no interval
  animates it.
\<close>

lemma stats_entry_inert:
  assumes "textContent (nodes s e) = INFINITY_SIGN" and "e \<notin> set (stats_observed s)"
    and "\<forall>tid tm. timers s tid = Some tm \<longrightarrow> \<not> counter_on e (callback tm)"
  shows "textContent (nodes (stats_entry en s) e) = INFINITY_SIGN
       \<and> e \<notin> set (stats_observed (stats_entry en s))
       \<and> (\<forall>tid tm. timers (stats_entry en s) tid = Some tm \<longrightarrow> \<not> counter_on e (callback tm))"
  using assms
  by (auto simp add: stats_entry_def animateCounter_def setInterval_def set_timer_def Let_def)

lemma statsObserver_callback_inert:
  assumes "textContent (nodes s e) = INFINITY_SIGN" and "e \<notin> set (stats_observed s)"
    and "\<forall>tid tm. timers s tid = Some tm \<longrightarrow> \<not> counter_on e (callback tm)"
  shows "textContent (nodes (statsObserver_callback ens s) e) = INFINITY_SIGN
       \<and> e \<notin> set (stats_observed (statsObserver_callback ens s))
       \<and> (\<forall>tid tm. timers (statsObserver_callback ens s) tid = Some tm
            \<longrightarrow> \<not> counter_on e (callback tm))"
  using assms unfolding statsObserver_callback_def
proof (induction ens arbitrary: s)
  case Nil
  then show ?case by simp
next
  case (Cons en ens)
  from stats_entry_inert [OF Cons.prems, of en] have
    "textContent (nodes (stats_entry en s) e) = INFINITY_SIGN"
    "e \<notin> set (stats_observed (stats_entry en s))"
    "\<forall>tid tm. timers (stats_entry en s) tid = Some tm \<longrightarrow> \<not> counter_on e (callback tm)"
    by simp_all
  from Cons.IH [OF this] show ?case by simp
qed

lemma counter_tick_inert:
  assumes "textContent (nodes s e) = INFINITY_SIGN" and "e \<notin> set (stats_observed s)"
    and "\<forall>tid tm. timers s tid = Some tm \<longrightarrow> \<not> counter_on e (callback tm)"
    and "timers s tid = Some tm" and "callback tm = CounterTick c"
  shows "textContent (nodes (counter_tick tid tm c s) e) = INFINITY_SIGN
       \<and> e \<notin> set (stats_observed (counter_tick tid tm c s))
       \<and> (\<forall>tid' tm'. timers (counter_tick tid tm c s) tid' = Some tm'
            \<longrightarrow> \<not> counter_on e (callback tm'))"
proof -
  from assms(3,4,5) have "element c \<noteq> e"
    by fastforce
  with assms(1,2,3) show ?thesis
    by (auto simp add: counter_tick_def set_node_def clearInterval_def Let_def)
qed

lemma step_inert:
  assumes "counter_event s ev"
    and "textContent (nodes s e) = INFINITY_SIGN" and "e \<notin> set (stats_observed s)"
    and "\<forall>tid tm. timers s tid = Some tm \<longrightarrow> \<not> counter_on e (callback tm)"
  shows "textContent (nodes (step pg ev s) e) = INFINITY_SIGN
       \<and> e \<notin> set (stats_observed (step pg ev s))
       \<and> (\<forall>tid tm. timers (step pg ev s) tid = Some tm \<longrightarrow> \<not> counter_on e (callback tm))"
proof (cases ev)
  case DOMContentLoaded
  then show ?thesis using assms(2-)
    by (simp add: step_DOMContentLoaded fold_loaded_counters)
next
  case (Intersection ens)
  then show ?thesis using assms(2-) by (simp add: step_def)
next
  case (StatsIntersection ens)
  then show ?thesis
    using statsObserver_callback_inert [OF assms(2-)] by (simp add: step_def)
next
  case (TimerFires tid)
  with assms(1) obtain tm c where tm: "timers s tid = Some tm" "callback tm = CounterTick c"
    by (auto split: option.splits elim: is_counter_tick.elims)
  from counter_tick_inert [OF assms(2-) tm] TimerFires tm show ?thesis
    by (simp add: step_def fire_timer_def)
qed (use assms(1) in simp_all)

text \<open>
  C4. A counter element whose text is the sentinel when the page is loaded, not observed
  and not animated before, stays so over every sequence of page-load events, reports of
  the two intersection observers and ticks of counter intervals: its text is the
  sentinel, it is never among the targets of the counters' observer, and no interval
  animates it.
\<close>

theorem infinity_counter_inert:
  assumes "textContent (nodes s e) = INFINITY_SIGN"
    and "e \<notin> set (stats_observed s)"
    and "\<forall>tid tm. timers s tid = Some tm \<longrightarrow> \<not> counter_on e (callback tm)"
    and "counter_events pg evs s"
  shows "textContent (nodes (run pg evs s) e) = INFINITY_SIGN
       \<and> e \<notin> set (stats_observed (run pg evs s))
       \<and> (\<forall>tid tm. timers (run pg evs s) tid = Some tm \<longrightarrow> \<not> counter_on e (callback tm))"
  using assms
proof (induction evs arbitrary: s)
  case Nil
  then show ?case by simp
next
  case (Cons ev evs)
  from Cons.prems(4) have ev: "counter_event s ev" and evs: "counter_events pg evs (step pg ev s)"
    by simp_all
  from step_inert [OF ev Cons.prems(1-3), of pg] have
    "textContent (nodes (step pg ev s) e) = INFINITY_SIGN"
    "e \<notin> set (stats_observed (step pg ev s))"
    "\<forall>tid tm. timers (step pg ev s) tid = Some tm \<longrightarrow> \<not> counter_on e (callback tm)"
    by simp_all
  from Cons.IH [OF this evs] show ?case by simp
qed

lemma example_state_timers:
  "timers example_state = [0 \<mapsto> \<lparr>callback = TypeWriter, delay = 1000, repeating = False\<rparr>]"
  by (simp add: example_state_def run_script_def example_page_def example_start_def
      initial_state_def addEventListener_def init_typing_def setTimeout_def set_timer_def
      init_image_def init_style_def createElement_def init_btn_def set_node_def Let_def)

lemma example_no_counter:
  "\<forall>tid tm. timers example_state tid = Some tm \<longrightarrow> \<not> counter_on 9 (callback tm)"
  by (auto simp add: example_state_timers split: if_splits)

lemma example_sentinel: "textContent (nodes example_state 9) = INFINITY_SIGN"
  by code_simp

lemma example_unobserved: "9 \<notin> set (stats_observed example_state)"
  by code_simp

lemma example_counter_events:
  "counter_events example_page
     [DOMContentLoaded, StatsIntersection [(8, True), (9, True)], TimerFires 1,
      Intersection [(7, True)], StatsIntersection [(9, True)]] example_state"
  by code_simp

theorem infinity_counter_inert_witness:
  "textContent (nodes example_state 9) = INFINITY_SIGN
   \<and> 9 \<notin> set (stats_observed example_state)
   \<and> counter_events example_page
        [DOMContentLoaded, StatsIntersection [(8, True), (9, True)], TimerFires 1,
         Intersection [(7, True)], StatsIntersection [(9, True)]] example_state
   \<and> textContent (nodes (run example_page
        [DOMContentLoaded, StatsIntersection [(8, True), (9, True)], TimerFires 1,
         Intersection [(7, True)], StatsIntersection [(9, True)]] example_state) 9) = INFINITY_SIGN
   \<and> 9 \<notin> set (stats_observed (run example_page
        [DOMContentLoaded, StatsIntersection [(8, True), (9, True)], TimerFires 1,
         Intersection [(7, True)], StatsIntersection [(9, True)]] example_state))"
  using infinity_counter_inert [OF example_sentinel example_unobserved example_no_counter
      example_counter_events]
    example_sentinel example_unobserved example_counter_events
  by simp


section \<open>Counters that do not parse\<close>

lemma jsadd_NaN [simp]: "jsadd x NaN = NaN"
  by (cases x) simp_all

lemma running_NaN: "1 \<le> i \<Longrightarrow> running NaN i = NaN"
  by (cases i) simp_all

text \<open>
  C10, as amended. A counter whose text is not the sentinel and for which
  \<open>parseInt\<close> of the text without its first \<open>+\<close> is \<open>NaN\<close>: once it is reported as
  intersecting, no tick satisfies the stop condition, the interval is never cleared, and
  after every tick the text is \<open>NaN\<close>, followed by \<open>+\<close> when the original text contains one.
\<close>

theorem nan_counter:
  assumes "el \<in> set (stats_observed s)"
    and "textContent (nodes s el) \<noteq> INFINITY_SIGN"
    and "tgt = textContent (nodes s el)"
    and "parseInt (replace_plus tgt) = NaN"
    and "tid = next_timer s"
    and "s0 = step pg (StatsIntersection [(el, True)]) s"
  shows "\<forall>j. 1 \<le> j \<longrightarrow>
           \<not> jsge (running (jsdiv NaN (num 50)) j) NaN
           \<and> textContent (nodes (run pg (replicate j (TimerFires tid)) s0) el) =
               str ''NaN'' @ (if includes_plus tgt then str ''+'' else [])
           \<and> timers (run pg (replicate j (TimerFires tid)) s0) tid \<noteq> None"
proof (intro allI impI)
  fix j :: nat
  assume j: "1 \<le> j"
  have tm: "timers s0 tid = Some \<lparr>callback = CounterTick
      \<lparr>element = el, target = tgt, numericTarget = NaN, increment = NaN, current = num 0\<rparr>,
      delay = 30, repeating = True\<rparr>"
    using counter_started [OF assms(1-3) refl refl assms(5,6)] assms(4) by simp
  have never: "\<forall>i. 1 \<le> i \<and> i \<le> j \<longrightarrow> \<not> jsge (running NaN i) NaN"
    by (simp add: running_NaN)
  from ticks_before_reach [OF tm never, of pg] j
  show "\<not> jsge (running (jsdiv NaN (num 50)) j) NaN
      \<and> textContent (nodes (run pg (replicate j (TimerFires tid)) s0) el) =
          str ''NaN'' @ (if includes_plus tgt then str ''+'' else [])
      \<and> timers (run pg (replicate j (TimerFires tid)) s0) tid \<noteq> None"
    by (simp add: running_NaN)
qed

lemma words_observed: "8 \<in> set (stats_observed (counter_page_loaded (str ''soon+'')))"
  by code_simp

lemma words_text: "textContent (nodes (counter_page_loaded (str ''soon+'')) 8) = str ''soon+''"
  by code_simp

lemma words_finite: "str ''soon+'' \<noteq> INFINITY_SIGN"
  by code_simp

lemma words_parse: "parseInt (replace_plus (str ''soon+'')) = NaN"
  by code_simp

lemma words_timer: "next_timer (counter_page_loaded (str ''soon+'')) = 1"
  by code_simp

lemma words_plus: "includes_plus (str ''soon+'')"
  by code_simp

theorem nan_counter_witness:
  "8 \<in> set (stats_observed (counter_page_loaded (str ''soon+'')))
   \<and> textContent (nodes (counter_page_loaded (str ''soon+'')) 8) \<noteq> INFINITY_SIGN
   \<and> parseInt (replace_plus (str ''soon+'')) = NaN
   \<and> textContent (nodes (run example_page (replicate 2 (TimerFires 1))
         (step example_page (StatsIntersection [(8, True)])
            (counter_page_loaded (str ''soon+'')))) 8) = str ''NaN+''
   \<and> timers (run example_page (replicate 2 (TimerFires 1))
         (step example_page (StatsIntersection [(8, True)])
            (counter_page_loaded (str ''soon+'')))) 1 \<noteq> None"
proof -
  have finite: "textContent (nodes (counter_page_loaded (str ''soon+'')) 8) \<noteq> INFINITY_SIGN"
    by (simp add: words_text words_finite)
  have parse: "parseInt (replace_plus (textContent (nodes (counter_page_loaded (str ''soon+'')) 8))) = NaN"
    by (simp add: words_text words_parse)
  have cat: "str ''NaN'' @ str ''+'' = str ''NaN+''"
    by (simp add: str_def)
  from nan_counter [OF words_observed finite refl parse words_timer [symmetric] refl,
      of example_page]
  have "textContent (nodes (run example_page (replicate 2 (TimerFires 1))
         (step example_page (StatsIntersection [(8, True)])
            (counter_page_loaded (str ''soon+'')))) 8) =
        str ''NaN'' @ (if includes_plus (str ''soon+'') then str ''+'' else [])
      \<and> timers (run example_page (replicate 2 (TimerFires 1))
         (step example_page (StatsIntersection [(8, True)])
            (counter_page_loaded (str ''soon+'')))) 1 \<noteq> None"
    by (simp add: words_text)
  then show ?thesis
    using words_observed finite words_parse by (simp add: words_plus cat)
qed

lemma plus_observed: "8 \<in> set (stats_observed (counter_page_loaded (str ''++5'')))"
  by code_simp

lemma plus_text: "textContent (nodes (counter_page_loaded (str ''++5'')) 8) = str ''++5''"
  by code_simp

lemma plus_finite: "str ''++5'' \<noteq> INFINITY_SIGN"
  by code_simp

lemma plus_parse: "parseInt (replace_plus (str ''++5'')) = num 5"
  by code_simp

lemma plus_spec_parse: "parseInt (spec_strip_trailing_plus (str ''++5'')) = NaN"
  by code_simp

lemma plus_timer: "next_timer (counter_page_loaded (str ''++5'')) = 1"
  by code_simp

lemma plus_reach: "ticks_to_reach (jsdiv (num 5) (num 50)) (num 5) (num 0) 60 = Some 51"
  by code_simp

lemma plus_first_tick:
  "textContent (nodes (run example_page (replicate 1 (TimerFires 1))
      (step example_page (StatsIntersection [(8, True)])
         (counter_page_loaded (str ''++5'')))) 8) = str ''0+''"
  by code_simp

text \<open>
  C10 as stated fails: the text \<open>++5\<close> is not the sentinel and does not parse once a
  trailing \<open>+\<close> is stripped (it has none), but the script removes the first \<open>+\<close> and parses
  5. The first tick shows \<open>0+\<close>, and tick 51 restores \<open>++5\<close> and clears the interval.
\<close>

theorem nan_counter_counterexample:
  "textContent (nodes (counter_page_loaded (str ''++5'')) 8) = str ''++5''
   \<and> str ''++5'' \<noteq> INFINITY_SIGN
   \<and> parseInt (spec_strip_trailing_plus (str ''++5'')) = NaN
   \<and> textContent (nodes (run example_page (replicate 1 (TimerFires 1))
         (step example_page (StatsIntersection [(8, True)])
            (counter_page_loaded (str ''++5'')))) 8) = str ''0+''
   \<and> textContent (nodes (run example_page (replicate 51 (TimerFires 1))
         (step example_page (StatsIntersection [(8, True)])
            (counter_page_loaded (str ''++5'')))) 8) = str ''++5''
   \<and> timers (run example_page (replicate 51 (TimerFires 1))
         (step example_page (StatsIntersection [(8, True)])
            (counter_page_loaded (str ''++5'')))) 1 = None"
proof -
  have finite: "textContent (nodes (counter_page_loaded (str ''++5'')) 8) \<noteq> INFINITY_SIGN"
    by (simp add: plus_text plus_finite)
  note tm = counter_started [OF plus_observed finite plus_text [symmetric]
      plus_parse [symmetric] refl plus_timer [symmetric] refl, of example_page]
  from ticks_to_reach_first [OF plus_reach] have first:
    "1 \<le> (51::nat)" "jsge (running (jsdiv (num 5) (num 50)) 51) (num 5)"
    "\<forall>i. 1 \<le> i \<and> i < 51 \<longrightarrow> \<not> jsge (running (jsdiv (num 5) (num 50)) i) (num 5)"
    by (simp_all add: running_def)
  from tick_reach [OF tm first, of example_page] plus_text plus_finite plus_spec_parse
    plus_first_tick
  show ?thesis by simp
qed


section \<open>The typing effect\<close>

lemma parse_text_last:
  "parse_text [c] = Some (if c = 0 then [] else if c = 13 then [10] else [c])"
  by (simp add: starts_with_def str_def)

lemma parse_text_escaped:
  assumes "0 \<notin> set t" and "13 \<notin> set t"
  shows "parse_text (html_escape t @ r) = map_option ((@) t) (parse_text r)"
  using assms
proof (induction t)
  case Nil
  then show ?case by (simp add: option.map_ident)
next
  case (Cons a t)
  then have ih: "parse_text (html_escape t @ r) = map_option ((@) t) (parse_text r)"
    and a: "a \<noteq> 0" "a \<noteq> 13"
    by auto
  show ?case
  proof (cases "a = 38 \<or> a = 160 \<or> a = 60 \<or> a = 62")
    case True
    then show ?thesis
      by (auto simp add: ih starts_with_def str_def option.map_comp comp_def)
  next
    case False
    with a show ?thesis
      by (simp add: ih option.map_comp comp_def)
  qed
qed

lemma typed_text_clean: "0 \<notin> set (typed_text m) \<and> 13 \<notin> set (typed_text m)"
  by (induction m) (simp_all add: typed_text_def)

lemma typed_text_snoc:
  "typed_text (m @ [c]) = typed_text m @ (if c = 0 then [] else if c = 13 then [10] else [c])"
  by (simp add: typed_text_def)

lemma type_one:
  "parse_text (html_escape (typed_text m) @ [c]) = Some (typed_text (m @ [c]))"
proof -
  have "parse_text (html_escape (typed_text m) @ [c]) =
      map_option ((@) (typed_text m)) (parse_text [c])"
    by (rule parse_text_escaped) (simp_all add: typed_text_clean)
  also have "\<dots> = Some (typed_text (m @ [c]))"
    by (simp add: parse_text_last typed_text_snoc del: parse_text.simps)
  finally show ?thesis .
qed

lemma typeWriter_fire:
  assumes "timers s tid = Some \<lparr>callback = TypeWriter, delay = d, repeating = r\<rparr>"
    and "next_timer s = Suc tid" and "type_i s = k" and "k < length (originalText s)"
    and "title_text s = Some (typed_text (take k (originalText s)))"
  shows "timers (step pg (TimerFires tid) s) (Suc tid) =
           Some \<lparr>callback = TypeWriter, delay = 100, repeating = False\<rparr>
       \<and> timers (step pg (TimerFires tid) s) tid = None
       \<and> next_timer (step pg (TimerFires tid) s) = Suc (Suc tid)
       \<and> type_i (step pg (TimerFires tid) s) = Suc k
       \<and> originalText (step pg (TimerFires tid) s) = originalText s
       \<and> title_text (step pg (TimerFires tid) s) =
           Some (typed_text (take (Suc k) (originalText s)))"
  using assms
  by (simp add: step_def fire_timer_def typeWriter_def clearInterval_def setTimeout_def
      set_timer_def type_one take_Suc_conv_app_nth)

lemma typeWriter_last:
  assumes "timers s tid = Some \<lparr>callback = TypeWriter, delay = d, repeating = r\<rparr>"
    and "type_i s = length (originalText s)"
  shows "step pg (TimerFires tid) s = s\<lparr>timers := (timers s)(tid := None)\<rparr>"
  using assms
  by (simp add: step_def fire_timer_def typeWriter_def clearInterval_def)

lemma upt_snoc_run:
  "run pg (map TimerFires [t..<t + Suc k]) s =
     step pg (TimerFires (t + k)) (run pg (map TimerFires [t..<t + k]) s)"
  by (simp add: run_append)

lemma typing_progress:
  assumes "timers s t = Some \<lparr>callback = TypeWriter, delay = 1000, repeating = False\<rparr>"
    and "next_timer s = Suc t" and "type_i s = 0" and "title_text s = Some []"
    and "k \<le> length (originalText s)"
  shows "(\<exists>d. timers (run pg (map TimerFires [t..<t + k]) s) (t + k) =
            Some \<lparr>callback = TypeWriter, delay = d, repeating = False\<rparr>)
       \<and> next_timer (run pg (map TimerFires [t..<t + k]) s) = Suc (t + k)
       \<and> type_i (run pg (map TimerFires [t..<t + k]) s) = k
       \<and> originalText (run pg (map TimerFires [t..<t + k]) s) = originalText s
       \<and> title_text (run pg (map TimerFires [t..<t + k]) s) =
           Some (typed_text (take k (originalText s)))"
  using assms(5)
proof (induction k)
  case 0
  then show ?case using assms(1-4) by (simp add: typed_text_def)
next
  case (Suc k)
  let ?s = "run pg (map TimerFires [t..<t + k]) s"
  from Suc have ih: "\<exists>d. timers ?s (t + k) = Some \<lparr>callback = TypeWriter, delay = d, repeating = False\<rparr>"
    "next_timer ?s = Suc (t + k)" "type_i ?s = k" "originalText ?s = originalText s"
    "title_text ?s = Some (typed_text (take k (originalText s)))" and k: "k < length (originalText s)"
    by simp_all
  from ih(1) obtain d where d: "timers ?s (t + k) = Some \<lparr>callback = TypeWriter, delay = d, repeating = False\<rparr>"
    by blast
  from typeWriter_fire [OF d ih(2,3), of pg] k ih(4,5)
  show ?case
    by (simp only: upt_snoc_run) simp
qed

lemma typing_result:
  assumes "timers s t = Some \<lparr>callback = TypeWriter, delay = 1000, repeating = False\<rparr>"
    and "next_timer s = Suc t" and "type_i s = 0" and "title_text s = Some []"
  shows "title_innerHTML (run pg (map TimerFires [t..<t + Suc (length (originalText s))]) s) =
           Some (html_escape (typed_text (originalText s)))
       \<and> timers (run pg (map TimerFires [t..<t + Suc (length (originalText s))]) s)
           (t + length (originalText s)) = None"
proof -
  let ?n = "length (originalText s)"
  let ?s = "run pg (map TimerFires [t..<t + ?n]) s"
  from typing_progress [OF assms order_refl, of pg] obtain d where
    d: "timers ?s (t + ?n) = Some \<lparr>callback = TypeWriter, delay = d, repeating = False\<rparr>"
    and idx: "type_i ?s = length (originalText ?s)"
    and content: "title_text ?s = Some (typed_text (originalText s))"
    by auto
  from typeWriter_last [OF d idx, of pg] content show ?thesis
    by (simp only: upt_snoc_run) (simp add: title_innerHTML_def)
qed

lemma html_escape_plain:
  "\<forall>c \<in> set m. c \<noteq> 38 \<and> c \<noteq> 160 \<and> c \<noteq> 60 \<and> c \<noteq> 62 \<Longrightarrow> html_escape m = m"
  by (induction m) simp_all

lemma html_escape_special:
  "c \<in> set m \<Longrightarrow> c = 38 \<or> c = 160 \<or> c = 60 \<or> c = 62 \<Longrightarrow> length m < length (html_escape m)"
proof (induction m)
  case Nil
  then show ?case by simp
next
  case (Cons a m)
  have le: "length m \<le> length (html_escape m)" for m
    by (induction m) (simp_all add: str_def)
  show ?case
  proof (cases "a = 38 \<or> a = 160 \<or> a = 60 \<or> a = 62")
    case True
    with le [of m] show ?thesis by (auto simp add: str_def)
  next
    case False
    with Cons show ?thesis by auto
  qed
qed

lemma typed_text_plain: "0 \<notin> set m \<Longrightarrow> 13 \<notin> set m \<Longrightarrow> typed_text m = m"
  by (induction m) (simp_all add: typed_text_def)

text \<open>
  A markup without \<open>&\<close>, \<open><\<close>, \<open>>\<close>, \<open>U+00A0\<close>, \<open>U+0000\<close> and carriage return is
  restored as it was captured; one that has a \<open>&\<close>, \<open><\<close>, \<open>>\<close> or \<open>U+00A0\<close> is not.
\<close>

lemma typing_plain_restored:
  assumes "timers s t = Some \<lparr>callback = TypeWriter, delay = 1000, repeating = False\<rparr>"
    and "next_timer s = Suc t" and "type_i s = 0" and "title_text s = Some []"
    and "\<forall>c \<in> set (originalText s). c \<noteq> 38 \<and> c \<noteq> 160 \<and> c \<noteq> 60 \<and> c \<noteq> 62"
    and "0 \<notin> set (originalText s)" and "13 \<notin> set (originalText s)"
  shows "title_innerHTML (run pg (map TimerFires [t..<t + Suc (length (originalText s))]) s) =
           Some (originalText s)"
  using typing_result [OF assms(1-4), of pg] assms(5-7)
  by (simp add: typed_text_plain html_escape_plain)

lemma typing_markup_escaped:
  assumes "timers s t = Some \<lparr>callback = TypeWriter, delay = 1000, repeating = False\<rparr>"
    and "next_timer s = Suc t" and "type_i s = 0" and "title_text s = Some []"
    and "c \<in> set (originalText s)" and "c = 38 \<or> c = 160 \<or> c = 60 \<or> c = 62"
    and "0 \<notin> set (originalText s)" and "13 \<notin> set (originalText s)"
  shows "title_innerHTML (run pg (map TimerFires [t..<t + Suc (length (originalText s))]) s) \<noteq>
           Some (originalText s)"
proof -
  from html_escape_special [OF assms(5,6)]
  have "html_escape (originalText s) \<noteq> originalText s"
    by auto
  with typing_result [OF assms(1-4), of pg] assms(7,8) show ?thesis
    by (simp add: typed_text_plain)
qed

text \<open>
  C9. With the markup \<open><b>A</b>\<close> in the hero title, the script captures the markup,
  clears the title and sets a timeout of 1000 ms, and every call of \<open>typeWriter\<close> sets
  the next timeout of 100 ms. Each \<open>innerHTML += c\<close> has the text so far parsed again, so
  that \<open><\<close> arrives as character data: when the eight characters are typed and no timeout
  is left, the title holds the text \<open><b>A</b>\<close>, and its \<open>innerHTML\<close> is
  \<open>&lt;b&gt;A&lt;/b&gt;\<close>, not the captured markup.
\<close>

theorem typing_escapes_markup:
  "hero_title_markup markup_page = str ''<b>A</b>''
   \<and> timers (run_script markup_page example_start) 0 =
       Some \<lparr>callback = TypeWriter, delay = 1000, repeating = False\<rparr>
   \<and> title_innerHTML (run_script markup_page example_start) = Some []
   \<and> timers (run markup_page [TimerFires 0] (run_script markup_page example_start)) 1 =
       Some \<lparr>callback = TypeWriter, delay = 100, repeating = False\<rparr>
   \<and> originalText (run markup_page (map TimerFires [0..<9])
         (run_script markup_page example_start)) = str ''<b>A</b>''
   \<and> type_i (run markup_page (map TimerFires [0..<9])
         (run_script markup_page example_start)) = 8
   \<and> timers (run markup_page (map TimerFires [0..<9])
         (run_script markup_page example_start)) 9 = None
   \<and> title_text (run markup_page (map TimerFires [0..<9])
         (run_script markup_page example_start)) = Some (str ''<b>A</b>'')
   \<and> title_innerHTML (run markup_page (map TimerFires [0..<9])
         (run_script markup_page example_start)) = Some (str ''&lt;b&gt;A&lt;/b&gt;'')"
  by (intro conjI) code_simp+

end
